theory Spec2Isabelle
  imports Complex_Main "HOL-Library.Sublist" "HOL-Library.List_Lexorder"
    "HOL-Library.Product_Lexorder"
begin

section \<open>Python values\<close>

text \<open>
  A Python \<open>str\<close> is a sequence of Unicode code points; a code point is a natural number.
  \<open>U ''abc''\<close> is the \<open>str\<close> of an ASCII literal. Lists of code points are ordered
  lexicographically, as Python compares strings.
\<close>

type_synonym ustr = "nat list"

definition U :: "string \<Rightarrow> ustr" where
  "U s = map of_char s"

text \<open>
  \<open>str.isspace\<close> of one code point: the code points Python 3 treats as whitespace
  (\<open>str.strip\<close> with no argument removes exactly these).
\<close>

definition py_isspace :: "nat \<Rightarrow> bool" where
  "py_isspace c \<longleftrightarrow>
     (9 \<le> c \<and> c \<le> 13) \<or> (28 \<le> c \<and> c \<le> 32) \<or> c = 133 \<or> c = 160 \<or> c = 5760 \<or>
     (8192 \<le> c \<and> c \<le> 8202) \<or> c = 8232 \<or> c = 8233 \<or> c = 8239 \<or> c = 8287 \<or> c = 12288"

definition lstrip :: "ustr \<Rightarrow> ustr" where
  "lstrip s = dropWhile py_isspace s"

definition rstrip :: "ustr \<Rightarrow> ustr" where
  "rstrip s = rev (dropWhile py_isspace (rev s))"

definition strip :: "ustr \<Rightarrow> ustr" where
  "strip s = rstrip (lstrip s)"

definition startswith :: "ustr \<Rightarrow> ustr \<Rightarrow> bool" where
  "startswith s p \<longleftrightarrow> take (length p) s = p"

definition endswith :: "ustr \<Rightarrow> ustr \<Rightarrow> bool" where
  "endswith s p \<longleftrightarrow> length p \<le> length s \<and> drop (length s - length p) s = p"

text \<open>\<open>str_in p s\<close> is Python's \<open>p in s\<close> on strings: \<open>p\<close> occurs in \<open>s\<close> as a substring.\<close>

fun str_in :: "ustr \<Rightarrow> ustr \<Rightarrow> bool" where
  "str_in p [] = (p = [])"
| "str_in p (c # s) = (startswith (c # s) p \<or> str_in p s)"

text \<open>
  The values the programs handle are what \<open>json.load\<close> returns, and dictionaries built
  from them. A float is a rational (every finite double is one), a negative zero, an
  infinity or a NaN. A dictionary is an association list in insertion order; in a
  dictionary Python builds, no two keys are equal.
\<close>

datatype pyfloat = Finite rat | NegZero | PosInf | NegInf | NaN

datatype pyval =
    PNone
  | PBool bool
  | PInt int
  | PFloat pyfloat
  | PStr ustr
  | PList "pyval list"
  | PDict "(pyval \<times> pyval) list"

datatype error = AttributeError | TypeError | ValueError | OverflowError | OSError

definition bindE :: "error + 'a \<Rightarrow> ('a \<Rightarrow> error + 'b) \<Rightarrow> error + 'b" where
  "bindE m f = (case m of Inl e \<Rightarrow> Inl e | Inr v \<Rightarrow> f v)"

text \<open>Truth value testing: \<open>not v\<close> is \<open>\<not> truthy v\<close>.\<close>

fun truthy :: "pyval \<Rightarrow> bool" where
  "truthy PNone = False"
| "truthy (PBool b) = b"
| "truthy (PInt i) = (i \<noteq> 0)"
| "truthy (PFloat f) = (f \<noteq> Finite 0 \<and> f \<noteq> NegZero)"
| "truthy (PStr s) = (s \<noteq> [])"
| "truthy (PList xs) = (xs \<noteq> [])"
| "truthy (PDict d) = (d \<noteq> [])"

text \<open>\<open>a or b\<close>.\<close>

definition py_or :: "pyval \<Rightarrow> pyval \<Rightarrow> pyval" where
  "py_or a b = (if truthy a then a else b)"

text \<open>\<open>d.get(k)\<close> and \<open>d.get(k, dflt)\<close> on a dictionary, for a string key.\<close>

definition dict_get_default :: "(pyval \<times> pyval) list \<Rightarrow> string \<Rightarrow> pyval \<Rightarrow> pyval" where
  "dict_get_default d k dflt = (case map_of d (PStr (U k)) of None \<Rightarrow> dflt | Some v \<Rightarrow> v)"

definition dict_get :: "(pyval \<times> pyval) list \<Rightarrow> string \<Rightarrow> pyval" where
  "dict_get d k = dict_get_default d k PNone"

text \<open>
  \<open>v.get(k)\<close> on any value: only a dictionary has the method, every other value raises
  \<open>AttributeError\<close>.
\<close>

definition py_get_default :: "pyval \<Rightarrow> string \<Rightarrow> pyval \<Rightarrow> error + pyval" where
  "py_get_default v k dflt =
     (case v of PDict d \<Rightarrow> Inr (dict_get_default d k dflt) | _ \<Rightarrow> Inl AttributeError)"

definition py_get :: "pyval \<Rightarrow> string \<Rightarrow> error + pyval" where
  "py_get v k = py_get_default v k PNone"

text \<open>
  Keys of a dictionary: lists and dictionaries are unhashable (\<open>TypeError\<close>); numbers
  and booleans are equal as keys when they are numerically equal (\<open>1 == True == 1.0\<close>).
\<close>

fun hashable :: "pyval \<Rightarrow> bool" where
  "hashable (PList xs) = False"
| "hashable (PDict d) = False"
| "hashable v = True"

fun num_of :: "pyval \<Rightarrow> rat option" where
  "num_of (PBool b) = Some (if b then 1 else 0)"
| "num_of (PInt i) = Some (of_int i)"
| "num_of (PFloat (Finite r)) = Some r"
| "num_of (PFloat NegZero) = Some 0"
| "num_of v = None"

definition key_eq :: "pyval \<Rightarrow> pyval \<Rightarrow> bool" where
  "key_eq a b = (case (num_of a, num_of b) of (Some x, Some y) \<Rightarrow> x = y | _ \<Rightarrow> a = b)"

text \<open>\<open>d[k] = v\<close>: an equal key keeps its place (and the key object), a new key goes last.\<close>

fun dict_set :: "(pyval \<times> pyval) list \<Rightarrow> pyval \<Rightarrow> pyval \<Rightarrow> (pyval \<times> pyval) list" where
  "dict_set [] k v = [(k, v)]"
| "dict_set ((k', v') # d) k v =
     (if key_eq k' k then (k', v) # d else (k', v') # dict_set d k v)"

section \<open>The library the programs call\<close>

text \<open>
  The functions of Python's standard library that the programs call, and the output
  locations, are parameters of the model: \<open>json.loads\<close> (\<open>None\<close> when it raises),
  \<open>base64.b64decode\<close> (\<open>None\<close> when it raises), the \<open>path\<close> component of
  \<open>urllib.parse.urlparse\<close> (\<open>None\<close> when it raises \<open>ValueError\<close>), \<open>str.lower\<close>,
  \<open>str.upper\<close>, \<open>int\<close> of a string (\<open>None\<close> when it raises), \<open>str\<close> of a value that is
  not a string (\<open>None\<close> when it raises), the base name of an entry's files (host, slug,
  time stamp and SHA-1 digest, lines 234 to 247 of \<open>extract_har_json.py\<close>; \<open>None\<close> when
  \<open>encode\<close> raises, as it does on a lone surrogate), the two
  output directories, and whether the file system lets the program work: whether the
  output directories can be made, whether a JSON file can be written, whether the
  summary table can be written.
\<close>

record env =
  json_loads :: "ustr \<Rightarrow> pyval option"
  b64decode :: "ustr \<Rightarrow> nat list option"
  url_path :: "ustr \<Rightarrow> ustr option"
  str_lower :: "ustr \<Rightarrow> ustr"
  str_upper :: "ustr \<Rightarrow> ustr"
  int_of_str :: "ustr \<Rightarrow> int option"
  py_str :: "pyval \<Rightarrow> ustr option"
  base_name :: "nat \<Rightarrow> pyval \<Rightarrow> ustr \<Rightarrow> pyval \<Rightarrow> int \<Rightarrow> ustr option"
  responses_dir :: ustr
  requests_dir :: ustr
  makedirs_ok :: bool
  write_ok :: "ustr \<Rightarrow> pyval \<Rightarrow> bool"
  summary_ok :: bool

text \<open>\<open>v.lower()\<close> and \<open>v.upper()\<close> on any value: only a string has the methods.\<close>

definition py_lower :: "env \<Rightarrow> pyval \<Rightarrow> error + ustr" where
  "py_lower E v = (case v of PStr s \<Rightarrow> Inr (str_lower E s) | _ \<Rightarrow> Inl AttributeError)"

definition py_upper :: "env \<Rightarrow> pyval \<Rightarrow> error + ustr" where
  "py_upper E v = (case v of PStr s \<Rightarrow> Inr (str_upper E s) | _ \<Rightarrow> Inl AttributeError)"

section \<open>JSON recovery (\<open>extract_har_json.py\<close>)\<close>

definition hardening_prefixes :: "ustr list" where
  "hardening_prefixes =
     [U '')]}'' @ [39, 44, 10], U '')]}'' @ [39, 44],
      U ''while(1);'' @ [10], U ''while(1);'',
      U ''for(;;);'' @ [10], U ''for(;;);'']"

text \<open>The loop of \<open>strip_json_hardening_prefix\<close> over the prefixes, in order.\<close>

fun strip_first_prefix :: "ustr list \<Rightarrow> ustr \<Rightarrow> ustr \<Rightarrow> ustr" where
  "strip_first_prefix [] s s2 = s"
| "strip_first_prefix (p # ps) s s2 =
     (if startswith s2 p then lstrip (drop (length p) s2) else strip_first_prefix ps s s2)"

definition strip_json_hardening_prefix :: "ustr \<Rightarrow> ustr" where
  "strip_json_hardening_prefix s = strip_first_prefix hardening_prefixes s (lstrip s)"

text \<open>
  \<open>try_parse_json\<close> returns the pair \<open>(value, ok)\<close>. A value that is true and not a string
  raises \<open>AttributeError\<close> at \<open>s.lstrip()\<close>, outside the \<open>try\<close>.
\<close>

definition try_parse_json :: "env \<Rightarrow> pyval \<Rightarrow> error + (pyval \<times> bool)" where
  "try_parse_json E t =
     (if \<not> truthy t then Inr (PNone, False)
      else case t of
        PStr t' \<Rightarrow>
          (let s = strip (strip_json_hardening_prefix t') in
           if s = [] then Inr (PNone, False)
           else case json_loads E s of
                  Some v \<Rightarrow> Inr (v, True)
                | None \<Rightarrow> Inr (PNone, False))
      | _ \<Rightarrow> Inl AttributeError)"

text \<open>
  The dictionary comprehension of \<open>try_extract_request_json\<close>:
  \<open>{p.get("name"): p.get("value") for p in params if p.get("name")}\<close>, as a loop that
  extends the dictionary built so far.
\<close>

fun form_params :: "(pyval \<times> pyval) list \<Rightarrow> pyval list \<Rightarrow> error + (pyval \<times> pyval) list" where
  "form_params acc [] = Inr acc"
| "form_params acc (p # ps) =
     (case p of
        PDict d \<Rightarrow>
          (if truthy (dict_get d ''name'') then
             (if hashable (dict_get d ''name'')
              then form_params (dict_set acc (dict_get d ''name'') (dict_get d ''value'')) ps
              else Inl TypeError)
           else form_params acc ps)
      | _ \<Rightarrow> Inl AttributeError)"

text \<open>\<open>isinstance(v, list)\<close>, and the items of a list.\<close>

definition isinstance_list :: "pyval \<Rightarrow> bool" where
  "isinstance_list v = (case v of PList xs \<Rightarrow> True | _ \<Rightarrow> False)"

definition list_items :: "pyval \<Rightarrow> pyval list" where
  "list_items v = (case v of PList xs \<Rightarrow> xs | _ \<Rightarrow> [])"

text \<open>The value of \<open>post\<close> in \<open>try_extract_request_json\<close> (its first two lines).\<close>

definition request_post :: "pyval \<Rightarrow> error + pyval" where
  "request_post entry =
     bindE (py_get_default entry ''request'' (PDict [])) (\<lambda>req.
     bindE (py_get req ''postData'') (\<lambda>p.
     Inr (py_or p (PDict []))))"

definition try_extract_request_json :: "env \<Rightarrow> pyval \<Rightarrow> error + (pyval \<times> bool)" where
  "try_extract_request_json E entry =
     bindE (request_post entry) (\<lambda>post.
     case post of
       PDict pd \<Rightarrow>
         bindE (py_lower E (py_or (dict_get pd ''mimeType'') (PStr []))) (\<lambda>mime.
         let t = dict_get pd ''text'' in
         if \<not> truthy t then Inr (PNone, False)
         else
           bindE (if str_in (U ''json'') mime then try_parse_json E t else Inr (PNone, False))
             (\<lambda>(obj, ok).
           if ok then Inr (obj, True)
           else if str_in (U ''x-www-form-urlencoded'') mime
                   \<and> isinstance_list (dict_get pd ''params'')
           then bindE (form_params [] (list_items (dict_get pd ''params'')))
                  (\<lambda>d. Inr (PDict d, True))
           else
             bindE (try_parse_json E t) (\<lambda>(obj', ok').
             if ok' then Inr (obj', True) else Inr (PNone, False))))
     | _ \<Rightarrow> Inl AttributeError)"

section \<open>UTF-8 decoding\<close>

text \<open>
  \<open>bytes.decode("utf-8", errors=...)\<close>. \<open>utf8_step\<close> reads one item at the head of the
  bytes: a code point of a well-formed sequence with the length of the sequence, or
  \<open>None\<close> with the length of the longest prefix of a well-formed sequence that stands
  there (one byte at least). \<open>utf8_items\<close> is the sequence of the items. With
  \<open>errors="ignore"\<close> the undecodable items are left out; with \<open>errors="replace"\<close> each
  becomes U+FFFD (65533).
\<close>

datatype decode_errors = Ignore | Replace

definition is_cont :: "nat \<Rightarrow> bool" where
  "is_cont b \<longleftrightarrow> 128 \<le> b \<and> b \<le> 191"

definition utf8_step :: "nat list \<Rightarrow> nat option \<times> nat" where
  "utf8_step bs =
     (case bs of
        [] \<Rightarrow> (None, 1)
      | b0 # r0 \<Rightarrow>
        if b0 < 128 then (Some b0, 1)
        else if 194 \<le> b0 \<and> b0 \<le> 223 then
          (case r0 of
             b1 # r1 \<Rightarrow> if is_cont b1 then (Some ((b0 - 192) * 64 + (b1 - 128)), 2) else (None, 1)
           | [] \<Rightarrow> (None, 1))
        else if 224 \<le> b0 \<and> b0 \<le> 239 then
          (case r0 of
             b1 # r1 \<Rightarrow>
               if (if b0 = 224 then 160 else 128) \<le> b1 \<and> b1 \<le> (if b0 = 237 then 159 else 191) then
                 (case r1 of
                    b2 # r2 \<Rightarrow>
                      if is_cont b2
                      then (Some ((b0 - 224) * 4096 + (b1 - 128) * 64 + (b2 - 128)), 3)
                      else (None, 2)
                  | [] \<Rightarrow> (None, 2))
               else (None, 1)
           | [] \<Rightarrow> (None, 1))
        else if 240 \<le> b0 \<and> b0 \<le> 244 then
          (case r0 of
             b1 # r1 \<Rightarrow>
               if (if b0 = 240 then 144 else 128) \<le> b1 \<and> b1 \<le> (if b0 = 244 then 143 else 191) then
                 (case r1 of
                    b2 # r2 \<Rightarrow>
                      if is_cont b2 then
                        (case r2 of
                           b3 # r3 \<Rightarrow>
                             if is_cont b3
                             then (Some ((b0 - 240) * 262144 + (b1 - 128) * 4096
                                         + (b2 - 128) * 64 + (b3 - 128)), 4)
                             else (None, 3)
                         | [] \<Rightarrow> (None, 3))
                      else (None, 2)
                  | [] \<Rightarrow> (None, 2))
               else (None, 1)
           | [] \<Rightarrow> (None, 1))
        else (None, 1))"

fun utf8_items :: "nat list \<Rightarrow> nat option list" where
  "utf8_items [] = []"
| "utf8_items (b # bs) =
     fst (utf8_step (b # bs)) # utf8_items (drop (snd (utf8_step (b # bs)) - 1) bs)"

definition utf8_decode :: "decode_errors \<Rightarrow> nat list \<Rightarrow> ustr" where
  "utf8_decode errors bs =
     (case errors of
        Ignore \<Rightarrow> map the (filter (\<lambda>i. i \<noteq> None) (utf8_items bs))
      | Replace \<Rightarrow> map (\<lambda>i. case i of None \<Rightarrow> 65533 | Some c \<Rightarrow> c) (utf8_items bs))"

section \<open>The API classifier (\<open>extract_har_json.py\<close>)\<close>

text \<open>
  \<open>os.path.splitext(path)[1]\<close> of \<open>posixpath\<close>: the extension starts at the last dot of
  the part after the last slash, unless only dots come before that dot in this part.
\<close>

definition splitext_ext :: "ustr \<Rightarrow> ustr" where
  "splitext_ext p =
     (let base = rev (takeWhile (\<lambda>c. c \<noteq> 47) (rev p));
          ext = 46 # rev (takeWhile (\<lambda>c. c \<noteq> 46) (rev base));
          stem = take (length base - length ext) base
      in if 46 \<in> set base \<and> (\<exists>c \<in> set stem. c \<noteq> 46) then ext else [])"

definition ext_block :: "ustr list" where
  "ext_block = map U
     [''.js'', ''.css'', ''.png'', ''.jpg'', ''.jpeg'', ''.gif'', ''.svg'', ''.ico'',
      ''.woff'', ''.woff2'', ''.ttf'', ''.otf'', ''.map'', ''.mp4'', ''.webm'', ''.mp3'',
      ''.wav'', ''.ogg'', ''.pdf'', ''.zip'', ''.gz'', ''.br'', ''.webp'', ''.avif'', ''.heic'',
      ''.eot'']"

definition api_segments :: "ustr list" where
  "api_segments = map U [''/api/'', ''/v1/'', ''/v2/'', ''/graphql'', ''/wp-json/'']"

definition write_methods :: "ustr list" where
  "write_methods = map U [''POST'', ''PUT'', ''PATCH'', ''DELETE'']"

text \<open>
  The first six lines of \<open>is_probable_api\<close>: the values of \<open>url\<close>, \<open>method\<close>, \<open>content\<close>
  and \<open>mime\<close>. A \<open>get\<close> on a value that is no dictionary and \<open>upper\<close> or \<open>lower\<close> on a value
  that is no string raise.
\<close>

definition api_fields :: "env \<Rightarrow> pyval \<Rightarrow> error + (pyval \<times> ustr \<times> (pyval \<times> pyval) list \<times> ustr)" where
  "api_fields E entry =
     bindE (py_get_default entry ''request'' (PDict [])) (\<lambda>req.
     bindE (py_get_default entry ''response'' (PDict [])) (\<lambda>res.
     bindE (py_get req ''url'') (\<lambda>u.
     bindE (py_get req ''method'') (\<lambda>m.
     bindE (py_upper E (py_or m (PStr []))) (\<lambda>method.
     bindE (py_get res ''content'') (\<lambda>c.
     case py_or c (PDict []) of
       PDict content \<Rightarrow>
         bindE (py_get res ''mimeType'') (\<lambda>rm.
         bindE (py_lower E (py_or (dict_get content ''mimeType'') (py_or rm (PStr [])))) (\<lambda>mime.
         Inr (py_or u (PStr []), method, content, mime)))
     | _ \<Rightarrow> Inl AttributeError))))))"

text \<open>\<open>urlparse(url).path\<close>: a value that is no string raises in \<open>urlparse\<close>.\<close>

definition parsed_path :: "env \<Rightarrow> pyval \<Rightarrow> error + ustr" where
  "parsed_path E url =
     (case url of
        PStr u \<Rightarrow> (case url_path E u of None \<Rightarrow> Inl ValueError | Some p \<Rightarrow> Inr p)
      | _ \<Rightarrow> Inl AttributeError)"

text \<open>
  \<open>bytes.decode("utf-8", errors="ignore")\<close> after \<open>base64.b64decode\<close>, on any value: a value
  that is no string raises in \<open>b64decode\<close>. \<open>None\<close> stands for an exception.
\<close>

definition b64_utf8_ignore :: "env \<Rightarrow> pyval \<Rightarrow> ustr option" where
  "b64_utf8_ignore E t =
     (case t of
        PStr s \<Rightarrow> (case b64decode E s of None \<Rightarrow> None | Some bs \<Rightarrow> Some (utf8_decode Ignore bs))
      | _ \<Rightarrow> None)"

text \<open>
  The fallback of \<open>is_probable_api\<close>: whether the response body looks like JSON. Every
  exception of the \<open>try\<close> block is passed over.
\<close>

definition body_looks_json :: "env \<Rightarrow> (pyval \<times> pyval) list \<Rightarrow> bool" where
  "body_looks_json E content =
     (let t = dict_get content ''text'' in
      if truthy t then
        (case (if dict_get content ''encoding'' = PStr (U ''base64'') then b64_utf8_ignore E t
               else (case t of PStr s \<Rightarrow> Some s | _ \<Rightarrow> None)) of
           None \<Rightarrow> False
         | Some t' \<Rightarrow> startswith (strip t') (U ''{'') \<or> startswith (strip t') (U ''[''))
      else False)"

definition is_probable_api :: "env \<Rightarrow> pyval \<Rightarrow> error + bool" where
  "is_probable_api E entry =
     bindE (api_fields E entry) (\<lambda>(url, method, content, mime).
     bindE (parsed_path E url) (\<lambda>path.
     let ext = str_lower E (splitext_ext path) in
     if ext \<in> set ext_block then Inr False
     else if str_in (U ''json'') mime then Inr True
     else if endswith path (U ''.json'') then Inr True
     else if \<exists>seg \<in> set api_segments. str_in seg (str_lower E path) then Inr True
     else if method \<in> set write_methods then Inr True
     else Inr (body_looks_json E content)))"

section \<open>The body decoder\<close>

definition decode_body_text :: "env \<Rightarrow> pyval \<Rightarrow> error + pyval" where
  "decode_body_text E content =
     bindE (py_get content ''text'') (\<lambda>t.
     if t = PNone then Inr PNone
     else
       bindE (py_get content ''encoding'') (\<lambda>encoding.
       if encoding = PStr (U ''base64'') then
         (case b64_utf8_ignore E t of None \<Rightarrow> Inr PNone | Some s \<Rightarrow> Inr (PStr s))
       else
         (case t of
            PStr s \<Rightarrow> Inr (PStr s)
          | _ \<Rightarrow> (case py_str E t of None \<Rightarrow> Inr PNone | Some s \<Rightarrow> Inr (PStr s)))))"

section \<open>The entry processor and the pipeline\<close>

text \<open>\<open>int(v)\<close> for a true value \<open>v\<close>; a float is truncated towards zero.\<close>

definition py_int :: "env \<Rightarrow> pyval \<Rightarrow> error + int" where
  "py_int E v =
     (case v of
        PInt i \<Rightarrow> Inr i
      | PBool b \<Rightarrow> Inr (if b then 1 else 0)
      | PFloat f \<Rightarrow>
          (case f of
             Finite r \<Rightarrow> Inr (if 0 \<le> r then \<lfloor>r\<rfloor> else \<lceil>r\<rceil>)
           | NegZero \<Rightarrow> Inr 0
           | NaN \<Rightarrow> Inl ValueError
           | _ \<Rightarrow> Inl OverflowError)
      | PStr s \<Rightarrow> (case int_of_str E s of None \<Rightarrow> Inl ValueError | Some i \<Rightarrow> Inr i)
      | _ \<Rightarrow> Inl TypeError)"

definition get_entry_fields :: "env \<Rightarrow> pyval \<Rightarrow> error + (pyval \<times> pyval \<times> pyval \<times> int \<times> pyval)" where
  "get_entry_fields E entry =
     bindE (py_get_default entry ''request'' (PDict [])) (\<lambda>req.
     bindE (py_get_default entry ''response'' (PDict [])) (\<lambda>res.
     bindE (py_get req ''url'') (\<lambda>u.
     bindE (py_get req ''method'') (\<lambda>m.
     bindE (py_get entry ''startedDateTime'') (\<lambda>st.
     bindE (py_get res ''status'') (\<lambda>s.
     bindE (py_int E (py_or s (PInt 0))) (\<lambda>status.
     bindE (py_get res ''content'') (\<lambda>c.
     Inr (py_or m (PStr []), py_or u (PStr []), py_or st (PStr []), status,
          py_or c (PDict []))))))))))"

record summary_row =
  r_index :: nat
  r_startedDateTime :: pyval
  r_method :: pyval
  r_url :: pyval
  r_status :: int
  r_response_mimeType :: pyval
  r_is_probable_api :: bool
  r_response_is_json :: bool
  r_response_json_file :: ustr
  r_request_is_json :: bool
  r_request_json_file :: ustr

text \<open>
  Steps 1 and 3 of the entry processor: the fields of the entry, the decoded response
  body and its JSON recovery, \<open>(response_obj, response_is_json)\<close>.
\<close>

definition response_recovery :: "env \<Rightarrow> pyval \<Rightarrow> error + (pyval \<times> bool)" where
  "response_recovery E entry =
     bindE (get_entry_fields E entry) (\<lambda>(method, url, started, status, content).
     bindE (decode_body_text E content) (\<lambda>decoded.
     try_parse_json E (py_or decoded (PStr []))))"

text \<open>
  Writing a JSON file when the flag is set and the object is not \<open>None\<close>: the path
  written, the empty string when nothing is written, \<open>OSError\<close> when the write fails.
\<close>

definition save_json :: "env \<Rightarrow> ustr \<Rightarrow> ustr \<Rightarrow> pyval \<Rightarrow> bool \<Rightarrow> error + ustr" where
  "save_json E dir name obj ok =
     (if ok \<and> obj \<noteq> PNone then
        (if write_ok E (dir @ U ''/'' @ name) obj then Inr (dir @ U ''/'' @ name) else Inl OSError)
      else Inr [])"

text \<open>
  The second half of the body of the loop of \<open>main\<close>, for an entry that is included:
  naming, the two files, the row.
\<close>

definition build_row ::
  "env \<Rightarrow> nat \<Rightarrow> pyval \<Rightarrow> pyval \<times> pyval \<times> pyval \<times> int \<times> pyval \<Rightarrow> bool \<Rightarrow> pyval \<times> bool
     \<Rightarrow> error + summary_row" where
  "build_row E idx entry flds probable_api response =
     (case (flds, response) of
        ((method, url, started, status, content), (response_obj, response_is_json)) \<Rightarrow>
       (case url of
          PStr u \<Rightarrow>
            bindE (case base_name E idx method u started status of
                     None \<Rightarrow> Inl ValueError | Some b \<Rightarrow> Inr b) (\<lambda>base.
            bindE (save_json E (responses_dir E) (base @ U ''.response.json'')
                     response_obj response_is_json) (\<lambda>response_json_path.
            bindE (try_extract_request_json E entry) (\<lambda>(req_obj, req_is_json).
            bindE (save_json E (requests_dir E) (base @ U ''.request.json'')
                     req_obj req_is_json) (\<lambda>request_json_path.
            bindE (py_get content ''mimeType'') (\<lambda>cm.
            Inr \<lparr> r_index = idx, r_startedDateTime = started, r_method = method,
                  r_url = url, r_status = status,
                  r_response_mimeType = py_or cm (PStr []),
                  r_is_probable_api = probable_api,
                  r_response_is_json = response_is_json,
                  r_response_json_file = response_json_path,
                  r_request_is_json = req_is_json,
                  r_request_json_file = request_json_path \<rparr>)))))
        | _ \<Rightarrow> Inl AttributeError))"

text \<open>
  The body of the loop of \<open>main\<close> for the entry at index \<open>idx\<close>: \<open>Inl\<close> when an exception
  reaches the \<open>except\<close> of the loop (the entry is skipped with a warning), \<open>Inr None\<close> when
  the entry is not included, \<open>Inr (Some row)\<close> when its row is appended.
\<close>

definition process_entry :: "env \<Rightarrow> bool \<Rightarrow> nat \<Rightarrow> pyval \<Rightarrow> error + summary_row option" where
  "process_entry E include_nonjson idx entry =
     bindE (get_entry_fields E entry) (\<lambda>(method, url, started, status, content).
     bindE (is_probable_api E entry) (\<lambda>probable_api.
     bindE (decode_body_text E content) (\<lambda>decoded.
     bindE (try_parse_json E (py_or decoded (PStr []))) (\<lambda>(response_obj, response_is_json).
     let include = (if probable_api \<and> (response_is_json \<or> include_nonjson) then True
                    else if response_is_json then True else False) in
     if \<not> include then Inr None
     else bindE (build_row E idx entry (method, url, started, status, content) probable_api
                   (response_obj, response_is_json))
            (\<lambda>row. Inr (Some row))))))"

text \<open>The loop over \<open>enumerate(entries, start=1)\<close>, from index \<open>idx\<close> on: the rows appended.\<close>

fun process_entries :: "env \<Rightarrow> bool \<Rightarrow> nat \<Rightarrow> pyval list \<Rightarrow> summary_row list" where
  "process_entries E include_nonjson idx [] = []"
| "process_entries E include_nonjson idx (entry # entries) =
     (case process_entry E include_nonjson idx entry of
        Inr (Some row) \<Rightarrow> row # process_entries E include_nonjson (Suc idx) entries
      | _ \<Rightarrow> process_entries E include_nonjson (Suc idx) entries)"

text \<open>\<open>(((har or {}).get("log") or {}).get("entries") or [])\<close>.\<close>

definition har_entries :: "pyval \<Rightarrow> error + pyval" where
  "har_entries har =
     bindE (py_get (py_or har (PDict [])) ''log'') (\<lambda>l.
     bindE (py_get (py_or l (PDict [])) ''entries'') (\<lambda>es.
     Inr (py_or es (PList []))))"

text \<open>The items a \<open>for\<close> loop takes from a value; a number or a boolean is not iterable.\<close>

definition iter_items :: "pyval \<Rightarrow> error + pyval list" where
  "iter_items v =
     (case v of
        PList xs \<Rightarrow> Inr xs
      | PDict d \<Rightarrow> Inr (map fst d)
      | PStr s \<Rightarrow> Inr (map (\<lambda>c. PStr [c]) s)
      | _ \<Rightarrow> Inl TypeError)"

text \<open>
  \<open>main\<close> of the extractor. The input file is \<open>None\<close> when the path names no file, and its
  text otherwise. The result is \<open>Inl\<close> when an exception leaves \<open>main\<close> (the interpreter
  then ends with a traceback), and otherwise the exit code with the rows of the summary
  table, \<open>None\<close> when no table is written.
\<close>

definition main :: "env \<Rightarrow> bool \<Rightarrow> ustr option \<Rightarrow> error + (int \<times> summary_row list option)" where
  "main E include_nonjson har_file =
     (if \<not> makedirs_ok E then Inl OSError
      else case har_file of
        None \<Rightarrow> Inr (2, None)
      | Some txt \<Rightarrow>
          (case json_loads E txt of
             None \<Rightarrow> Inr (2, None)
           | Some har \<Rightarrow>
               bindE (har_entries har) (\<lambda>entries.
               if \<not> truthy entries then Inr (0, None)
               else
                 bindE (iter_items entries) (\<lambda>es.
                 if summary_ok E then Inr (0, Some (process_entries E include_nonjson 1 es))
                 else Inl OSError))))"

section \<open>URL aggregation (\<open>url_aggregate.py\<close>)\<close>

text \<open>
  A row of \<open>csv.DictReader\<close>: the value of a column is a string, or \<open>None\<close> when the file
  has no such column or the line is too short.
\<close>

record csv_row =
  col_url :: "ustr option"
  col_status :: "ustr option"
  col_response_json_file :: "ustr option"

text \<open>\<open>v or ""\<close> for such a value.\<close>

definition or_empty :: "ustr option \<Rightarrow> ustr" where
  "or_empty v = (case v of None \<Rightarrow> [] | Some s \<Rightarrow> s)"

text \<open>
  The sets of one URL. A Python set is a list without repetitions here; \<open>set_add\<close> is
  \<open>s.add(x)\<close>. The order of the list is of no consequence: the program only sorts the
  sets, with keys that tell all elements apart.
\<close>

record url_data =
  statuses :: "ustr list"
  files :: "ustr list"

definition set_add :: "ustr list \<Rightarrow> ustr \<Rightarrow> ustr list" where
  "set_add s x = (if x \<in> set s then s else s @ [x])"

text \<open>The \<open>OrderedDict\<close> \<open>url_map\<close>: an association list in insertion order.\<close>

type_synonym url_map = "(ustr \<times> url_data) list"

definition od_update :: "url_map \<Rightarrow> ustr \<Rightarrow> (url_data \<Rightarrow> url_data) \<Rightarrow> url_map" where
  "od_update m k f = map (\<lambda>(k', d). if k' = k then (k', f d) else (k', d)) m"

text \<open>The body of the reading loop, for one row.\<close>

definition collect_row :: "url_map \<Rightarrow> csv_row \<Rightarrow> url_map" where
  "collect_row m row =
     (let url = strip (or_empty (col_url row)) in
      if url = [] then m
      else
        let status = strip (or_empty (col_status row));
            resp_file = strip (or_empty (col_response_json_file row));
            m1 = (if url \<notin> fst ` set m then m @ [(url, \<lparr>statuses = [], files = []\<rparr>)] else m);
            m2 = (if status \<noteq> [] then od_update m1 url (\<lambda>d. d\<lparr>statuses := set_add (statuses d) status\<rparr>)
                  else m1);
            m3 = (if resp_file \<noteq> []
                  then od_update m2 url (\<lambda>d. d\<lparr>files := set_add (files d) resp_file\<rparr>)
                  else m2)
        in m3)"

definition collect :: "csv_row list \<Rightarrow> url_map" where
  "collect rows = foldl collect_row [] rows"

text \<open>\<open>sep.join(xs)\<close>.\<close>

fun join :: "ustr \<Rightarrow> ustr list \<Rightarrow> ustr" where
  "join sep [] = []"
| "join sep [x] = x"
| "join sep (x # y # xs) = x @ sep @ join sep (y # xs)"

record aggregate_row =
  out_url :: ustr
  out_statuses :: ustr
  out_response_files :: ustr

text \<open>The writing loop: one record for each URL of \<open>url_map\<close>, in its order.\<close>

definition emit :: "ustr \<Rightarrow> ustr \<times> url_data \<Rightarrow> aggregate_row" where
  "emit sep ud =
     \<lparr> out_url = fst ud,
       out_statuses = join sep (sort_key (\<lambda>s. (length s, s)) (statuses (snd ud))),
       out_response_files = join sep (sort_key (\<lambda>s. s) (files (snd ud))) \<rparr>"

definition aggregate :: "ustr \<Rightarrow> csv_row list \<Rightarrow> aggregate_row list" where
  "aggregate sep rows = map (emit sep) (collect rows)"

definition default_sep :: ustr where
  "default_sep = U ''|''"

text \<open>Reference notions: the URL, status and file of a row as the loop reads them, the
  distinct elements of a list in the order of their first occurrence, and the statuses and
  files seen with a URL.\<close>

definition row_url :: "csv_row \<Rightarrow> ustr" where
  "row_url row = strip (or_empty (col_url row))"

definition row_status :: "csv_row \<Rightarrow> ustr" where
  "row_status row = strip (or_empty (col_status row))"

definition row_file :: "csv_row \<Rightarrow> ustr" where
  "row_file row = strip (or_empty (col_response_json_file row))"

definition first_seen :: "'a list \<Rightarrow> 'a list" where
  "first_seen xs = rev (remdups (rev xs))"

definition statuses_of :: "ustr \<Rightarrow> csv_row list \<Rightarrow> ustr set" where
  "statuses_of u rows = {s. s \<noteq> [] \<and> (\<exists>r \<in> set rows. row_url r = u \<and> row_status r = s)}"

definition files_of :: "ustr \<Rightarrow> csv_row list \<Rightarrow> ustr set" where
  "files_of u rows = {s. s \<noteq> [] \<and> (\<exists>r \<in> set rows. row_url r = u \<and> row_file r = s)}"

text \<open>
  The data of a URL after one more row of that URL; the order by length, then
  lexicographic; and example rows (the rows of the specification's example).
\<close>

definition row_data :: "url_data \<Rightarrow> csv_row \<Rightarrow> url_data" where
  "row_data d r =
     \<lparr> statuses = (if row_status r \<noteq> [] then set_add (statuses d) (row_status r) else statuses d),
       files = (if row_file r \<noteq> [] then set_add (files d) (row_file r) else files d) \<rparr>"

definition len_lex_le :: "ustr \<Rightarrow> ustr \<Rightarrow> bool" where
  "len_lex_le a b \<longleftrightarrow> length a < length b \<or> (length a = length b \<and> a \<le> b)"

definition csv :: "string \<Rightarrow> string \<Rightarrow> string \<Rightarrow> csv_row" where
  "csv u s f = \<lparr> col_url = Some (U u), col_status = Some (U s), col_response_json_file = Some (U f) \<rparr>"

definition spec_rows :: "csv_row list" where
  "spec_rows = [csv ''A'' ''200'' ''f1'', csv ''A'' ''200'' ''f2'', csv ''A'' ''404'' '''']"

section \<open>A concrete library for the examples\<close>

text \<open>
  The closed examples below need a concrete library. Each component of \<open>demo_env\<close>
  returns what the Python function returns on the inputs the examples give it:
  \<open>loads_small\<close> knows four JSON documents and rejects every other text (the examples
  give it these four, and texts that are not JSON); \<open>ascii_lower\<close> and \<open>ascii_upper\<close> are
  \<open>str.lower\<close> and \<open>str.upper\<close> on ASCII text; \<open>url_path_simple\<close> is the path of a URL
  of the form \<open>scheme://host/path?query#fragment\<close> with no \<open>;\<close> in its path;
  \<open>b64decode_model\<close> follows CPython's \<open>binascii.a2b_base64\<close> in its default
  (non-strict) mode; \<open>int_digits\<close> is \<open>int\<close> on a string of decimal digits;
  \<open>str_small\<close> is \<open>str\<close> on strings, \<open>None\<close>, booleans, the empty list and the empty
  dictionary (the examples give it no other value).
\<close>

definition loads_small :: "ustr \<Rightarrow> pyval option" where
  "loads_small s =
     (if s = U ''{}'' then Some (PDict [])
      else if s = U ''[]'' then Some (PList [])
      else if s = U ''null'' then Some PNone
      else if s = U ''true'' then Some (PBool True)
      else None)"

definition ascii_lower :: "ustr \<Rightarrow> ustr" where
  "ascii_lower s = map (\<lambda>c. if 65 \<le> c \<and> c \<le> 90 then c + 32 else c) s"

definition ascii_upper :: "ustr \<Rightarrow> ustr" where
  "ascii_upper s = map (\<lambda>c. if 97 \<le> c \<and> c \<le> 122 then c - 32 else c) s"

fun after_scheme :: "ustr \<Rightarrow> ustr option" where
  "after_scheme (a # b # c # s) =
     (if [a, b, c] = U ''://'' then Some s else after_scheme (b # c # s))"
| "after_scheme s = None"

definition url_path_simple :: "ustr \<Rightarrow> ustr option" where
  "url_path_simple u =
     (let r = (case after_scheme u of Some s \<Rightarrow> dropWhile (\<lambda>c. c \<notin> {47, 63, 35}) s | None \<Rightarrow> u)
      in Some (takeWhile (\<lambda>c. c \<noteq> 63 \<and> c \<noteq> 35) r))"

definition b64_val :: "nat \<Rightarrow> nat option" where
  "b64_val c =
     (if 65 \<le> c \<and> c \<le> 90 then Some (c - 65)
      else if 97 \<le> c \<and> c \<le> 122 then Some (c - 71)
      else if 48 \<le> c \<and> c \<le> 57 then Some (c + 4)
      else if c = 43 then Some 62
      else if c = 47 then Some 63
      else None)"

fun a2b_base64 :: "nat list \<Rightarrow> nat \<Rightarrow> nat \<Rightarrow> nat \<Rightarrow> nat list \<Rightarrow> nat list option" where
  "a2b_base64 [] quad_pos leftchar pads out = (if quad_pos \<noteq> 0 then None else Some out)"
| "a2b_base64 (c # cs) quad_pos leftchar pads out =
     (if c = 61 then
        (if 2 \<le> quad_pos \<and> 4 \<le> quad_pos + (pads + 1) then Some out
         else a2b_base64 cs quad_pos leftchar (if 2 \<le> quad_pos then pads + 1 else pads) out)
      else case b64_val c of
        None \<Rightarrow> a2b_base64 cs quad_pos leftchar pads out
      | Some v \<Rightarrow>
          (if quad_pos = 0 then a2b_base64 cs 1 v 0 out
           else if quad_pos = 1 then a2b_base64 cs 2 (v mod 16) 0 (out @ [leftchar * 4 + v div 16])
           else if quad_pos = 2 then a2b_base64 cs 3 (v mod 4) 0 (out @ [leftchar * 16 + v div 4])
           else a2b_base64 cs 0 0 0 (out @ [leftchar * 64 + v])))"

definition b64decode_model :: "ustr \<Rightarrow> nat list option" where
  "b64decode_model s = (if \<exists>c \<in> set s. 128 \<le> c then None else a2b_base64 s 0 0 0 [])"

definition int_digits :: "ustr \<Rightarrow> int option" where
  "int_digits s =
     (if s \<noteq> [] \<and> (\<forall>c \<in> set s. 48 \<le> c \<and> c \<le> 57)
      then Some (foldl (\<lambda>n c. 10 * n + int (c - 48)) 0 s) else None)"

definition str_small :: "pyval \<Rightarrow> ustr option" where
  "str_small v =
     (case v of
        PStr s \<Rightarrow> Some s
      | PNone \<Rightarrow> Some (U ''None'')
      | PBool b \<Rightarrow> Some (if b then U ''True'' else U ''False'')
      | PList xs \<Rightarrow> (if xs = [] then Some (U ''[]'') else None)
      | PDict d \<Rightarrow> (if d = [] then Some (U ''{}'') else None)
      | _ \<Rightarrow> None)"

definition demo_env :: env where
  "demo_env =
     \<lparr> json_loads = loads_small,
       b64decode = b64decode_model,
       url_path = url_path_simple,
       str_lower = ascii_lower,
       str_upper = ascii_upper,
       int_of_str = int_digits,
       py_str = str_small,
       base_name = (\<lambda>idx m u st s. Some (U ''entry'')),
       responses_dir = U ''/out/responses'',
       requests_dir = U ''/out/requests'',
       makedirs_ok = True,
       write_ok = (\<lambda>p v. True),
       summary_ok = True \<rparr>"

section \<open>Reference notions for the request recovery\<close>

text \<open>
  The name and the value of a parameter object, the (name, value) pairs of the parameters
  with a true name in list order, and the parameters the dictionary comprehension accepts
  without raising: objects whose name, when true, is hashable.
\<close>

definition param_name :: "pyval \<Rightarrow> pyval" where
  "param_name p = (case p of PDict d \<Rightarrow> dict_get d ''name'' | _ \<Rightarrow> PNone)"

definition param_value :: "pyval \<Rightarrow> pyval" where
  "param_value p = (case p of PDict d \<Rightarrow> dict_get d ''value'' | _ \<Rightarrow> PNone)"

definition named_pairs :: "pyval list \<Rightarrow> (pyval \<times> pyval) list" where
  "named_pairs ps = map (\<lambda>p. (param_name p, param_value p)) (filter (\<lambda>p. truthy (param_name p)) ps)"

definition param_ok :: "pyval \<Rightarrow> bool" where
  "param_ok p = (case p of PDict d \<Rightarrow> \<not> truthy (dict_get d ''name'') \<or> hashable (dict_get d ''name'') | _ \<Rightarrow> False)"

text \<open>
  Parsing a body text with no hardening prefix stripped, as the specification words the
  request recovery: trim, then \<open>json.loads\<close>.
\<close>

definition parse_unhardened :: "env \<Rightarrow> ustr \<Rightarrow> pyval \<times> bool" where
  "parse_unhardened E t =
     (let s = strip t in
      if s = [] then (PNone, False)
      else case json_loads E s of Some v \<Rightarrow> (v, True) | None \<Rightarrow> (PNone, False))"

section \<open>Example inputs\<close>

text \<open>
  An entry whose request carries the post data \<open>pd\<close>, a parameter object, and post data:
  a form without body text (the example of the specification), a form with body text and
  a repeated name, and a JSON body behind a hardening prefix.
\<close>

definition post_entry :: "(pyval \<times> pyval) list \<Rightarrow> pyval" where
  "post_entry pd = PDict [(PStr (U ''request''), PDict [(PStr (U ''postData''), PDict pd)])]"

definition param :: "string \<Rightarrow> string \<Rightarrow> pyval" where
  "param n v = PDict [(PStr (U ''name''), PStr (U n)), (PStr (U ''value''), PStr (U v))]"

definition form_post_no_text :: "(pyval \<times> pyval) list" where
  "form_post_no_text =
     [(PStr (U ''mimeType''), PStr (U ''application/x-www-form-urlencoded'')),
      (PStr (U ''params''), PList [param ''a'' ''1'', param ''b'' ''2''])]"

definition form_post :: "(pyval \<times> pyval) list" where
  "form_post =
     [(PStr (U ''mimeType''), PStr (U ''application/x-www-form-urlencoded'')),
      (PStr (U ''text''), PStr (U ''a=1&b=2&a=3'')),
      (PStr (U ''params''), PList [param ''a'' ''1'', param ''b'' ''2'', param ''a'' ''3''])]"

definition hardened_text :: ustr where
  "hardened_text = U '')]}'' @ [39, 44, 10] @ U ''{}''"

definition json_post :: "(pyval \<times> pyval) list" where
  "json_post =
     [(PStr (U ''mimeType''), PStr (U ''application/json'')),
      (PStr (U ''text''), PStr hardened_text)]"


text \<open>
  Entries of a capture: an entry with the given URL, method, response mime type and
  response body, and status 200; a script served with a JSON mime type to a POST, an HTML
  page, and an API call; and a content object with a base64 body.
\<close>

definition entry_of :: "string \<Rightarrow> string \<Rightarrow> string \<Rightarrow> string \<Rightarrow> pyval" where
  "entry_of url method mime body =
     PDict [(PStr (U ''request''),
               PDict [(PStr (U ''url''), PStr (U url)), (PStr (U ''method''), PStr (U method))]),
            (PStr (U ''response''),
               PDict [(PStr (U ''status''), PInt 200),
                      (PStr (U ''content''),
                         PDict [(PStr (U ''mimeType''), PStr (U mime)),
                                (PStr (U ''text''), PStr (U body))])])]"

definition asset_entry :: pyval where
  "asset_entry = entry_of ''https://example.com/static/app.js'' ''POST'' ''application/json'' ''{}''"

definition page_entry :: pyval where
  "page_entry = entry_of ''https://example.com/index.html'' ''GET'' ''text/html'' ''hello''"

definition api_entry :: pyval where
  "api_entry = entry_of ''https://example.com/api/items'' ''GET'' ''application/json'' ''[]''"

definition three_entries :: "pyval list" where
  "three_entries = [api_entry, page_entry, asset_entry]"

definition b64_content :: "string \<Rightarrow> (pyval \<times> pyval) list" where
  "b64_content t = [(PStr (U ''encoding''), PStr (U ''base64'')), (PStr (U ''text''), PStr (U t))]"

text \<open>Whether the entry at the 1-based position \<open>i\<close> of a capture gets a row.\<close>

definition included_at :: "env \<Rightarrow> bool \<Rightarrow> pyval list \<Rightarrow> nat \<Rightarrow> bool" where
  "included_at E include_nonjson entries i \<longleftrightarrow>
     (\<exists>row. process_entry E include_nonjson i (entries ! (i - 1)) = Inr (Some row))"

section \<open>Evaluation and helper lemmas\<close>

lemmas eval_defs =
  U_def post_entry_def param_def request_post_def bindE_def py_get_def py_get_default_def
  dict_get_def dict_get_default_def py_or_def py_lower_def py_upper_def demo_env_def
  ascii_lower_def ascii_upper_def startswith_def endswith_def isinstance_list_def list_items_def
  Let_def strip_def lstrip_def rstrip_def py_isspace_def strip_json_hardening_prefix_def
  hardening_prefixes_def try_parse_json_def loads_small_def param_ok_def param_name_def
  param_value_def named_pairs_def key_eq_def

lemma key_eq_PStr [simp]: "key_eq k (PStr n) \<longleftrightarrow> k = PStr n" "key_eq (PStr n) k \<longleftrightarrow> k = PStr n"
  by (auto simp: key_eq_def split: option.splits)

lemma map_of_dict_set_PStr:
  "map_of (dict_set acc k v) (PStr n) = (if k = PStr n then Some v else map_of acc (PStr n))"
  by (induction acc k v rule: dict_set.induct) auto

lemma count_dict_set_PStr:
  "length (filter (\<lambda>kv. fst kv = PStr n) (dict_set acc k v)) =
     (if k = PStr n \<and> filter (\<lambda>kv. fst kv = PStr n) acc = [] then 1
      else length (filter (\<lambda>kv. fst kv = PStr n) acc))"
  by (induction acc k v rule: dict_set.induct) auto

lemma form_params_total:
  "\<forall>p \<in> set ps. param_ok p \<Longrightarrow> \<exists>d. form_params acc ps = Inr d"
  by (induction ps arbitrary: acc) (auto simp: param_ok_def split: pyval.splits)

lemma named_pairs_Cons:
  "named_pairs (p # ps) =
     (if truthy (param_name p) then (param_name p, param_value p) # named_pairs ps
      else named_pairs ps)"
  by (simp add: named_pairs_def)

lemma form_params_lookup:
  "form_params acc ps = Inr d \<Longrightarrow>
   map_of d (PStr n) =
     (case map_of (rev (named_pairs ps)) (PStr n) of Some v \<Rightarrow> Some v | None \<Rightarrow> map_of acc (PStr n))"
proof (induction ps arbitrary: acc)
  case Nil
  then show ?case by (simp add: named_pairs_def)
next
  case (Cons p ps)
  show ?case
  proof (cases p)
    case (PDict q)
    show ?thesis
    proof (cases "truthy (dict_get q ''name'')")
      case True
      with Cons.prems PDict have h: "form_params (dict_set acc (dict_get q ''name'') (dict_get q ''value'')) ps = Inr d"
        by (simp split: if_splits)
      show ?thesis
        using Cons.IH[OF h] True PDict
        by (simp add: named_pairs_Cons param_name_def param_value_def map_of_dict_set_PStr
              map_add_def split: option.splits)
    next
      case False
      with Cons.prems PDict have h: "form_params acc ps = Inr d" by simp
      show ?thesis using Cons.IH[OF h] False PDict
        by (simp add: named_pairs_Cons param_name_def)
    qed
  qed (use Cons.prems in simp_all)
qed



lemma request_form_branch:
  assumes "request_post entry = Inr (PDict pd)"
    and "py_lower E (py_or (dict_get pd ''mimeType'') (PStr [])) = Inr mime"
    and "truthy (dict_get pd ''text'')"
    and "str_in (U ''x-www-form-urlencoded'') mime"
    and "str_in (U ''json'') mime \<Longrightarrow> try_parse_json E (dict_get pd ''text'') = Inr (PNone, False)"
    and "dict_get pd ''params'' = PList ps"
    and "form_params [] ps = Inr d"
  shows "try_extract_request_json E entry = Inr (PDict d, True)"
  using assms by (cases "str_in (U ''json'') mime")
   (simp_all add: try_extract_request_json_def bindE_def Let_def isinstance_list_def list_items_def)

lemma filter_dict_set_same:
  "filter (\<lambda>kv. fst kv = PStr n) (dict_set acc (PStr n) v) \<noteq> []"
  by (induction acc "PStr n" v rule: dict_set.induct) auto

lemma filter_dict_set_other:
  "k \<noteq> PStr n \<Longrightarrow>
   filter (\<lambda>kv. fst kv = PStr n) (dict_set acc k v) = [] \<longleftrightarrow>
   filter (\<lambda>kv. fst kv = PStr n) acc = []"
  by (induction acc k v rule: dict_set.induct) auto

lemma form_params_count:
  "form_params acc ps = Inr d \<Longrightarrow>
   length (filter (\<lambda>kv. fst kv = PStr n) d) =
     (if filter (\<lambda>kv. fst kv = PStr n) acc = [] \<and> n \<noteq> [] \<and> (\<exists>p \<in> set ps. param_name p = PStr n) then 1
      else length (filter (\<lambda>kv. fst kv = PStr n) acc))"
proof (induction ps arbitrary: acc)
  case Nil
  then show ?case by simp
next
  case (Cons p ps)
  show ?case
  proof (cases p)
    case (PDict q)
    show ?thesis
    proof (cases "truthy (dict_get q ''name'')")
      case True
      with Cons.prems PDict have h: "form_params (dict_set acc (dict_get q ''name'') (dict_get q ''value'')) ps = Inr d"
        by (simp split: if_splits)
      have pn: "param_name p = dict_get q ''name''" using PDict by (simp add: param_name_def)
      show ?thesis
      proof (cases "dict_get q ''name'' = PStr n")
        case eq: True
        with True have "n \<noteq> []" by simp
        then show ?thesis
          using Cons.IH[OF h] eq pn by (simp add: count_dict_set_PStr filter_dict_set_same)
      next
        case False
        then show ?thesis
          using Cons.IH[OF h] pn by (simp add: count_dict_set_PStr filter_dict_set_other)
      qed
    next
      case False
      with Cons.prems PDict have h: "form_params acc ps = Inr d" by simp
      have pn: "param_name p \<noteq> PStr n \<or> n = []" using PDict False by (auto simp add: param_name_def)
      show ?thesis using Cons.IH[OF h] pn by auto
    qed
  qed (use Cons.prems in simp_all)
qed

lemma form_params_keys:
  "form_params acc ps = Inr d \<Longrightarrow> fst ` set d \<subseteq> fst ` set acc \<union> fst ` set (named_pairs ps)"
proof (induction ps arbitrary: acc)
  case Nil
  then show ?case by simp
next
  case (Cons p ps)
  have ks: "fst ` set (dict_set a k v) \<subseteq> insert k (fst ` set a)" for a k v
    by (induction a k v rule: dict_set.induct) auto
  show ?case
  proof (cases p)
    case (PDict q)
    show ?thesis
    proof (cases "truthy (dict_get q ''name'')")
      case True
      with Cons.prems PDict have h: "form_params (dict_set acc (dict_get q ''name'') (dict_get q ''value'')) ps = Inr d"
        by (simp split: if_splits)
      have "param_name p = dict_get q ''name''" using PDict by (simp add: param_name_def)
      with Cons.IH[OF h] ks[of acc "dict_get q ''name''" "dict_get q ''value''"] True
      show ?thesis by (auto simp: named_pairs_Cons)
    next
      case False
      with Cons.prems PDict have h: "form_params acc ps = Inr d" by simp
      show ?thesis using Cons.IH[OF h] by (auto simp: named_pairs_Cons)
    qed
  qed (use Cons.prems in simp_all)
qed

lemma named_pairs_append: "named_pairs (a @ b) = named_pairs a @ named_pairs b"
  by (simp add: named_pairs_def)

lemma named_pairs_no_key:
  "\<forall>p \<in> set ps. param_name p \<noteq> k \<Longrightarrow> map_of (rev (named_pairs ps)) k = None"
  by (auto simp: named_pairs_def map_of_eq_None_iff image_iff)

subsection \<open>Lemmas on the aggregation\<close>

lemma first_seen_snoc:
  "first_seen (xs @ [x]) = (if x \<in> set xs then first_seen xs else first_seen xs @ [x])"
  by (simp add: first_seen_def)

lemma set_first_seen [simp]: "set (first_seen xs) = set xs"
  by (simp add: first_seen_def)

lemma distinct_first_seen [simp]: "distinct (first_seen xs)"
  by (simp add: first_seen_def)

lemma fst_od_update [simp]: "map fst (od_update m k f) = map fst m"
  by (induction m) (auto simp: od_update_def)

lemma map_of_od_update:
  "map_of (od_update m k f) u = (if u = k then map_option f (map_of m k) else map_of m u)"
  by (induction m) (auto simp: od_update_def)

lemma collect_row_keys:
  "map fst (collect_row m r) =
     (if row_url r = [] \<or> row_url r \<in> set (map fst m) then map fst m else map fst m @ [row_url r])"
  by (simp add: collect_row_def row_url_def Let_def)


lemma map_of_collect_row:
  "map_of (collect_row m r) u =
     (if row_url r = [] \<or> u \<noteq> row_url r then map_of m u
      else Some (row_data (case map_of m u of None \<Rightarrow> \<lparr>statuses = [], files = []\<rparr> | Some d \<Rightarrow> d) r))"
proof (cases "row_url r = []")
  case True
  then show ?thesis by (simp add: collect_row_def row_url_def)
next
  case False
  show ?thesis
  proof (cases "row_url r \<in> fst ` set m")
    case True
    then obtain d where d: "map_of m (row_url r) = Some d"
      by (metis map_of_eq_None_iff not_Some_eq)
    show ?thesis
      using False True d
      by (simp add: collect_row_def Let_def map_of_od_update row_data_def
          row_url_def[symmetric] row_status_def[symmetric] row_file_def[symmetric])
  next
    case nin: False
    then have d: "map_of m (row_url r) = None"
      by (simp add: map_of_eq_None_iff)
    show ?thesis
      using False nin d
      by (auto simp add: collect_row_def Let_def map_of_od_update row_data_def map_add_def
          row_url_def[symmetric] row_status_def[symmetric] row_file_def[symmetric]
          split: option.splits)
  qed
qed

lemma set_set_add [simp]: "set (set_add s x) = insert x (set s)"
  by (auto simp: set_add_def)

lemma distinct_set_add [simp]: "distinct (set_add s x) = distinct s"
  by (auto simp: set_add_def)

lemma collect_snoc: "collect (rows @ [r]) = collect_row (collect rows) r"
  by (simp add: collect_def)

lemma collect_keys:
  "map fst (collect rows) = first_seen (filter (\<lambda>u. u \<noteq> []) (map row_url rows))"
proof (induction rows rule: rev_induct)
  case Nil
  then show ?case by (simp add: collect_def first_seen_def)
next
  case (snoc r rows)
  have "set (map fst (collect rows)) = {u \<in> row_url ` set rows. u \<noteq> []}"
    unfolding snoc.IH by auto
  then show ?case
    using snoc.IH by (auto simp add: collect_snoc collect_row_keys first_seen_snoc)
qed

lemma collect_data:
  "map_of (collect rows) u = Some d \<Longrightarrow>
     set (statuses d) = statuses_of u rows \<and> distinct (statuses d) \<and>
     set (files d) = files_of u rows \<and> distinct (files d)"
proof (induction rows arbitrary: d rule: rev_induct)
  case Nil
  then show ?case by (simp add: collect_def)
next
  case (snoc r rows)
  show ?case
  proof (cases "row_url r = [] \<or> u \<noteq> row_url r")
    case True
    then have m: "map_of (collect rows) u = Some d"
      using snoc.prems by (simp add: collect_snoc map_of_collect_row)
    then have "u \<in> set (map fst (collect rows))"
      by (metis map_of_eq_None_iff option.distinct(1) set_map)
    then have "u \<noteq> []" unfolding collect_keys by auto
    with True have ne: "row_url r \<noteq> u" by auto
    have "statuses_of u (rows @ [r]) = statuses_of u rows" "files_of u (rows @ [r]) = files_of u rows"
      using ne by (auto simp: statuses_of_def files_of_def)
    then show ?thesis using snoc.IH[OF m] by simp
  next
    case False
    then have u: "row_url r = u" "u \<noteq> []" by auto
    define d0 where "d0 = (case map_of (collect rows) u of None \<Rightarrow> \<lparr>statuses = [], files = []\<rparr> | Some d \<Rightarrow> d)"
    have d: "d = row_data d0 r"
      using snoc.prems False by (simp add: collect_snoc map_of_collect_row d0_def)
    have d0: "set (statuses d0) = statuses_of u rows \<and> distinct (statuses d0) \<and>
              set (files d0) = files_of u rows \<and> distinct (files d0)"
    proof (cases "map_of (collect rows) u")
      case None
      then have "u \<notin> set (map fst (collect rows))"
        by (simp add: map_of_eq_None_iff)
      then have "u \<notin> row_url ` set rows" unfolding collect_keys using u by auto
      then have "statuses_of u rows = {}" "files_of u rows = {}"
        by (auto simp: statuses_of_def files_of_def)
      then show ?thesis using None by (simp add: d0_def)
    next
      case (Some a)
      then show ?thesis using snoc.IH[OF Some] by (simp add: d0_def)
    qed
    have "statuses_of u (rows @ [r]) = statuses_of u rows \<union> (if row_status r \<noteq> [] then {row_status r} else {})"
      using u by (auto simp: statuses_of_def)
    moreover have "files_of u (rows @ [r]) = files_of u rows \<union> (if row_file r \<noteq> [] then {row_file r} else {})"
      using u by (auto simp: files_of_def)
    ultimately show ?thesis using d0 by (auto simp: d row_data_def)
  qed
qed


lemma sorted_len_lex:
  "sorted (map (\<lambda>s. (length s, s)) ss) \<Longrightarrow> sorted_wrt len_lex_le ss"
  unfolding sorted_map
  by (erule sorted_wrt_mono_rel[rotated]) (auto simp: len_lex_le_def)

lemma collect_distinct_keys: "distinct (map fst (collect rows))"
  by (simp add: collect_keys)

lemma aggregate_urls:
  "map out_url (aggregate sep rows) = first_seen (filter (\<lambda>u. u \<noteq> []) (map row_url rows))"
  by (simp add: aggregate_def emit_def collect_keys[symmetric] comp_def)

lemma aggregate_record:
  assumes "a \<in> set (aggregate sep rows)"
  shows "\<exists>d. map_of (collect rows) (out_url a) = Some d \<and> a = emit sep (out_url a, d)"
proof -
  from assms obtain u d where ud: "(u, d) \<in> set (collect rows)" and a: "a = emit sep (u, d)"
    by (auto simp: aggregate_def)
  have "map_of (collect rows) u = Some d"
    using ud collect_distinct_keys by simp
  moreover have "out_url a = u" using a by (simp add: emit_def)
  ultimately show ?thesis using a by auto
qed

lemmas agg_eval_defs =
  U_def csv_def aggregate_def collect_def collect_row_def emit_def or_empty_def set_add_def
  od_update_def Let_def strip_def lstrip_def rstrip_def py_isspace_def default_sep_def
  row_url_def row_status_def row_file_def first_seen_def

text \<open>
  The order in which a set is listed is of no consequence for the sorted result: the key
  \<open>(len(s), s)\<close> tells all elements apart.
\<close>

lemma sort_key_order_independent:
  assumes "distinct xs" and "distinct ys" and "set xs = set ys"
  shows "sort_key (\<lambda>s::ustr. (length s, s)) xs = sort_key (\<lambda>s. (length s, s)) ys"
proof -
  let ?k = "\<lambda>s::ustr. (length s, s)"
  have inj: "inj ?k" by (auto simp: inj_on_def)
  have "map ?k (sort_key ?k xs) = map ?k (sort_key ?k ys)"
  proof (rule sorted_distinct_set_unique)
    show "sorted (map ?k (sort_key ?k xs))" "sorted (map ?k (sort_key ?k ys))"
      by (rule sorted_sort_key)+
    show "distinct (map ?k (sort_key ?k xs))" "distinct (map ?k (sort_key ?k ys))"
      using assms(1,2) inj by (simp_all add: distinct_map inj_on_def)
    show "set (map ?k (sort_key ?k xs)) = set (map ?k (sort_key ?k ys))"
      using assms(3) by simp
  qed
  then show ?thesis using inj by (simp add: inj_map_eq_map)
qed

subsection \<open>Lemmas on the extractor\<close>

lemma bindE_Inr_iff: "bindE m f = Inr r \<longleftrightarrow> (\<exists>v. m = Inr v \<and> f v = Inr r)"
  by (cases m) (auto simp: bindE_def)

lemma bindE_Inr [simp]: "bindE (Inr v) f = f v"
  by (simp add: bindE_def)

lemma bindE_Inl [simp]: "bindE (Inl e) f = Inl e"
  by (simp add: bindE_def)

lemmas ex_eval_defs =
  eval_defs entry_of_def api_fields_def parsed_path_def url_path_simple_def splitext_ext_def
  ext_block_def api_segments_def write_methods_def body_looks_json_def b64_utf8_ignore_def
  decode_body_text_def get_entry_fields_def py_int_def save_json_def str_small_def

lemma build_row_index:
  "build_row E idx entry flds pa response = Inr row \<Longrightarrow> r_index row = idx"
  by (auto simp: build_row_def bindE_Inr_iff split: prod.splits pyval.splits)

lemma process_entry_index:
  "process_entry E inc idx entry = Inr (Some row) \<Longrightarrow> r_index row = idx"
  by (auto simp: process_entry_def bindE_Inr_iff Let_def build_row_index split: if_splits)

lemma process_entries_indices:
  "map r_index (process_entries E inc k es) =
     filter (\<lambda>i. \<exists>row. process_entry E inc i (es ! (i - k)) = Inr (Some row)) [k..<k + length es]"
proof (induction es arbitrary: k)
  case Nil
  then show ?case by simp
next
  case (Cons e es)
  have shift: "filter (\<lambda>i. \<exists>row. process_entry E inc i ((e # es) ! (i - k)) = Inr (Some row))
                 [Suc k..<Suc k + length es] =
               filter (\<lambda>i. \<exists>row. process_entry E inc i (es ! (i - Suc k)) = Inr (Some row))
                 [Suc k..<Suc k + length es]"
  proof (rule filter_cong[OF refl])
    fix i assume "i \<in> set [Suc k..<Suc k + length es]"
    then have "Suc k \<le> i" by (simp only: set_upt atLeastLessThan_iff)
    then have "i - k = Suc (i - Suc k)" by arith
    then show "(\<exists>row. process_entry E inc i ((e # es) ! (i - k)) = Inr (Some row)) =
               (\<exists>row. process_entry E inc i (es ! (i - Suc k)) = Inr (Some row))"
      by simp
  qed
  have upt: "[k..<k + length (e # es)] = k # [Suc k..<Suc k + length es]"
    by (simp add: upt_rec)
  show ?case
  proof (cases "process_entry E inc k e")
    case (Inl a)
    then show ?thesis unfolding upt using Cons.IH[of "Suc k"] shift by simp
  next
    case (Inr r)
    show ?thesis
    proof (cases r)
      case None
      then show ?thesis unfolding upt using Inr Cons.IH[of "Suc k"] shift by simp
    next
      case (Some row)
      then show ?thesis unfolding upt
        using Inr Cons.IH[of "Suc k"] shift process_entry_index[of E inc k e row] by simp
    qed
  qed
qed

lemma process_entries_rows:
  "row \<in> set (process_entries E inc k es) \<Longrightarrow>
     k \<le> r_index row \<and> r_index row < k + length es \<and>
     process_entry E inc (r_index row) (es ! (r_index row - k)) = Inr (Some row)"
proof (induction es arbitrary: k)
  case Nil
  then show ?case by simp
next
  case (Cons e es)
  show ?case
  proof (cases "process_entry E inc k e = Inr (Some row)")
    case True
    then show ?thesis using process_entry_index[OF True] by simp
  next
    case False
    then have "row \<in> set (process_entries E inc (Suc k) es)"
      using Cons.prems by (auto split: sum.splits option.splits)
    from Cons.IH[OF this] show ?thesis by (auto simp: Suc_diff_le)
  qed
qed

lemma utf8_ignore_eq_replace_iff:
  "utf8_decode Ignore bs = utf8_decode Replace bs \<longleftrightarrow> None \<notin> set (utf8_items bs)"
proof
  assume eq: "utf8_decode Ignore bs = utf8_decode Replace bs"
  show "None \<notin> set (utf8_items bs)"
  proof
    assume "None \<in> set (utf8_items bs)"
    then have "length (filter (\<lambda>i. i \<noteq> None) (utf8_items bs)) < length (utf8_items bs)"
      by (simp add: length_filter_less)
    moreover from eq have "length (utf8_decode Ignore bs) = length (utf8_decode Replace bs)"
      by simp
    ultimately show False by (simp add: utf8_decode_def)
  qed
next
  assume "None \<notin> set (utf8_items bs)"
  then have f: "filter (\<lambda>i. i \<noteq> None) (utf8_items bs) = utf8_items bs"
    by (metis (mono_tags, lifting) filter_True)
  show "utf8_decode Ignore bs = utf8_decode Replace bs"
    unfolding utf8_decode_def decode_errors.case f
    using \<open>None \<notin> set (utf8_items bs)\<close>
    by (intro map_cong refl) (auto split: option.splits)
qed

lemmas utf8_eval_defs = utf8_decode_def utf8_step_def is_cont_def b64decode_model_def b64_val_def
  b64_content_def

section \<open>The claims\<close>

subsection \<open>C1: JSON request bodies\<close>

text \<open>
  Claim C1, as amended. The claim says the request recovery parses a JSON body with no
  hardening prefix stripped; the code calls \<open>try_parse_json\<close>, the routine of the
  responses, which strips the prefix. What holds: for post data whose lower-cased mime
  type contains \<open>json\<close> and whose body text is a string, when the text, after a hardening
  prefix and surrounding whitespace are stripped, is not empty and parses, the recovery
  succeeds with the parsed value.
\<close>

theorem json_request_recovery_strips_hardening:
  assumes "request_post entry = Inr (PDict pd)"
    and "py_lower E (py_or (dict_get pd ''mimeType'') (PStr [])) = Inr mime"
    and "str_in (U ''json'') mime"
    and "dict_get pd ''text'' = PStr t"
    and "strip (strip_json_hardening_prefix t) \<noteq> []"
    and "json_loads E (strip (strip_json_hardening_prefix t)) = Some v"
  shows "try_extract_request_json E entry = Inr (v, True)"
proof -
  have "t \<noteq> []"
    using assms(5)
    by (auto simp: strip_json_hardening_prefix_def hardening_prefixes_def startswith_def
        strip_def lstrip_def rstrip_def U_def)
  then have "try_parse_json E (PStr t) = Inr (v, True)"
    using assms(5,6) by (simp add: try_parse_json_def Let_def)
  then show ?thesis
    using assms(1-4) \<open>t \<noteq> []\<close>
    by (simp add: try_extract_request_json_def bindE_def Let_def)
qed

text \<open>The theorem at a body that is \<open>{}\<close> behind the first hardening prefix.\<close>

theorem json_request_recovery_strips_hardening_witness:
  "str_in (U ''json'') (U ''application/json'') \<and>
   dict_get json_post ''text'' = PStr hardened_text \<and>
   strip (strip_json_hardening_prefix hardened_text) = U ''{}'' \<and>
   try_extract_request_json demo_env (post_entry json_post) = Inr (PDict [], True)"
proof -
  have 1: "request_post (post_entry json_post) = Inr (PDict json_post)"
    by (simp add: eval_defs json_post_def)
  have 2: "py_lower demo_env (py_or (dict_get json_post ''mimeType'') (PStr []))
            = Inr (U ''application/json'')"
    by (simp add: eval_defs json_post_def)
  have 3: "str_in (U ''json'') (U ''application/json'')"
    by (simp add: eval_defs)
  have 4: "dict_get json_post ''text'' = PStr hardened_text"
    by (simp add: eval_defs json_post_def)
  have s: "strip (strip_json_hardening_prefix hardened_text) = U ''{}''"
    by (simp add: eval_defs hardened_text_def)
  have 5: "strip (strip_json_hardening_prefix hardened_text) \<noteq> []"
    unfolding s by (simp add: U_def)
  have 6: "json_loads demo_env (strip (strip_json_hardening_prefix hardened_text)) = Some (PDict [])"
    unfolding s by (simp add: eval_defs)
  from json_request_recovery_strips_hardening[OF 1 2 3 4 5 6] 3 4 s show ?thesis by blast
qed

text \<open>
  Claim C1 as stated fails there: parsed with no prefix stripped the body is not JSON, and
  the recovery succeeds all the same, with the value behind the prefix.
\<close>

theorem json_request_no_stripping_counterexample:
  "str_in (U ''json'') (U ''application/json'') \<and>
   dict_get json_post ''mimeType'' = PStr (U ''application/json'') \<and>
   dict_get json_post ''text'' = PStr hardened_text \<and>
   parse_unhardened demo_env hardened_text = (PNone, False) \<and>
   try_extract_request_json demo_env (post_entry json_post) = Inr (PDict [], True)"
  by (simp add: eval_defs json_post_def hardened_text_def parse_unhardened_def
      try_extract_request_json_def)

subsection \<open>C2: base64 bodies\<close>

text \<open>
  Claim C2, as amended. The claim has a replacement character substituted for every
  undecodable byte sequence; the code decodes with \<open>errors="ignore"\<close>, which drops them.
  What holds: for every content object whose encoding tag is \<open>base64\<close>, the body decoder
  never raises; it returns the absent value when the text is absent, is no string or is
  rejected by the base64 decoder, and otherwise the code points of the well-formed UTF-8
  sequences of the decoded bytes, in order, with the undecodable sequences left out. The
  result is what decoding with replacement characters gives exactly when the bytes hold
  no undecodable sequence.
\<close>

theorem base64_body_decoded_ignoring_errors:
  assumes "dict_get c ''encoding'' = PStr (U ''base64'')"
  shows "decode_body_text E (PDict c) =
           Inr (case dict_get c ''text'' of
                  PStr t \<Rightarrow>
                    (case b64decode E t of
                       None \<Rightarrow> PNone
                     | Some bs \<Rightarrow> PStr (map the (filter (\<lambda>i. i \<noteq> None) (utf8_items bs))))
                | _ \<Rightarrow> PNone) \<and>
         (\<forall>t bs. dict_get c ''text'' = PStr t \<and> b64decode E t = Some bs \<longrightarrow>
            (decode_body_text E (PDict c) = Inr (PStr (utf8_decode Replace bs))
               \<longleftrightarrow> None \<notin> set (utf8_items bs)))"
proof (intro conjI allI impI)
  show r: "decode_body_text E (PDict c) =
           Inr (case dict_get c ''text'' of
                  PStr t \<Rightarrow>
                    (case b64decode E t of
                       None \<Rightarrow> PNone
                     | Some bs \<Rightarrow> PStr (map the (filter (\<lambda>i. i \<noteq> None) (utf8_items bs))))
                | _ \<Rightarrow> PNone)"
    using assms
    by (simp add: decode_body_text_def py_get_def py_get_default_def dict_get_def
        b64_utf8_ignore_def utf8_decode_def split: option.splits pyval.splits)
  fix t bs
  assume h: "dict_get c ''text'' = PStr t \<and> b64decode E t = Some bs"
  have "decode_body_text E (PDict c) = Inr (PStr (utf8_decode Ignore bs))"
    unfolding r using h by (simp add: utf8_decode_def)
  then show "decode_body_text E (PDict c) = Inr (PStr (utf8_decode Replace bs))
               \<longleftrightarrow> None \<notin> set (utf8_items bs)"
    using utf8_ignore_eq_replace_iff[of bs] by simp
qed

text \<open>
  The base64 text \<open>4oKs/w==\<close> holds the bytes E2 82 AC FF: the euro sign and an
  undecodable byte. The result is the euro sign alone.
\<close>

theorem base64_body_decoded_ignoring_errors_witness:
  "dict_get (b64_content ''4oKs/w=='') ''encoding'' = PStr (U ''base64'') \<and>
   b64decode demo_env (U ''4oKs/w=='') = Some [226, 130, 172, 255] \<and>
   utf8_items [226, 130, 172, 255] = [Some 8364, None] \<and>
   decode_body_text demo_env (PDict (b64_content ''4oKs/w=='')) = Inr (PStr [8364])"
proof -
  have 1: "dict_get (b64_content ''4oKs/w=='') ''encoding'' = PStr (U ''base64'')"
    by (simp add: eval_defs utf8_eval_defs)
  have 2: "dict_get (b64_content ''4oKs/w=='') ''text'' = PStr (U ''4oKs/w=='')"
    by (simp add: eval_defs utf8_eval_defs)
  have b: "b64decode demo_env (U ''4oKs/w=='') = Some [226, 130, 172, 255]"
    by (simp add: eval_defs utf8_eval_defs)
  have u: "utf8_items [226, 130, 172, 255] = [Some 8364, None]"
    by (simp add: utf8_eval_defs)
  have d: "decode_body_text demo_env (PDict (b64_content ''4oKs/w=='')) = Inr (PStr [8364])"
    using base64_body_decoded_ignoring_errors[OF 1, of demo_env] b u unfolding 2 by simp
  from 1 b u d show ?thesis by simp
qed

text \<open>
  Claim C2 as stated fails at the base64 text \<open>/w==\<close>, the byte FF: decoding with
  replacement gives one replacement character, the body decoder gives the empty string.
\<close>

theorem undecodable_byte_dropped_counterexample:
  "dict_get (b64_content ''/w=='') ''encoding'' = PStr (U ''base64'') \<and>
   b64decode demo_env (U ''/w=='') = Some [255] \<and>
   utf8_decode Replace [255] = [65533] \<and>
   decode_body_text demo_env (PDict (b64_content ''/w=='')) = Inr (PStr [])"
  by (simp add: eval_defs utf8_eval_defs decode_body_text_def b64_utf8_ignore_def)

subsection \<open>C3: the inclusion decision\<close>

text \<open>
  Claim C3. For every entry that the entry processor processes to the end (no exception
  reaches the \<open>except\<close> of the loop; an entry that raises is skipped with a warning), the
  classifier has a verdict, the response recovery has a result, and a row is emitted if
  and only if the verdict is true and the response parses as JSON or the option is set,
  or the response parses as JSON. So a response that parses as JSON is included even
  when the verdict is false.
\<close>

theorem inclusion_decision:
  assumes "process_entry E include_nonjson idx entry = Inr r"
  shows "\<exists>probable_api response_obj response_is_json.
           is_probable_api E entry = Inr probable_api \<and>
           response_recovery E entry = Inr (response_obj, response_is_json) \<and>
           ((\<exists>row. r = Some row) \<longleftrightarrow>
              (probable_api \<and> (response_is_json \<or> include_nonjson)) \<or> response_is_json)"
  using assms
  by (auto simp: process_entry_def response_recovery_def bindE_Inr_iff Let_def
      split: if_splits prod.splits)


text \<open>
  The script of the example above has the verdict false and a JSON response: it gets a
  row. The HTML page has the verdict false and no JSON response: it gets none.
\<close>

theorem inclusion_decision_witness:
  "is_probable_api demo_env asset_entry = Inr False \<and>
   response_recovery demo_env asset_entry = Inr (PDict [], True) \<and>
   (\<exists>row. process_entry demo_env False 1 asset_entry = Inr (Some row)) \<and>
   process_entry demo_env False 2 page_entry = Inr None"
proof -
  have a: "is_probable_api demo_env asset_entry = Inr False"
    by (simp add: ex_eval_defs asset_entry_def is_probable_api_def)
  have r: "response_recovery demo_env asset_entry = Inr (PDict [], True)"
    by (simp add: ex_eval_defs asset_entry_def response_recovery_def)
  have p: "process_entry demo_env False 2 page_entry = Inr None"
    by (simp add: ex_eval_defs page_entry_def is_probable_api_def process_entry_def)
  have "\<exists>r. process_entry demo_env False 1 asset_entry = Inr r"
    by (simp add: ex_eval_defs asset_entry_def is_probable_api_def process_entry_def build_row_def
        try_extract_request_json_def)
  then obtain r0 where e: "process_entry demo_env False 1 asset_entry = Inr r0" by blast
  from inclusion_decision[OF e] a r have "\<exists>row. r0 = Some row" by auto
  with e a r p show ?thesis by auto
qed

subsection \<open>C4: the indices of the rows\<close>

text \<open>
  Claim C4. For every capture, the indices of the emitted rows are the 1-based positions
  of the entries that get a row, in increasing order: they are strictly increasing, lie
  between 1 and the number of entries, and the row with index \<open>i\<close> is the row of the
  entry at position \<open>i\<close>. Leaving an entry out does not renumber the others.
\<close>

theorem summary_indices_are_positions:
  "map r_index (process_entries E include_nonjson 1 entries) =
     filter (included_at E include_nonjson entries) [1..<Suc (length entries)] \<and>
   sorted_wrt (<) (map r_index (process_entries E include_nonjson 1 entries)) \<and>
   (\<forall>row \<in> set (process_entries E include_nonjson 1 entries).
      1 \<le> r_index row \<and> r_index row \<le> length entries \<and>
      process_entry E include_nonjson (r_index row) (entries ! (r_index row - 1)) = Inr (Some row))"
proof (intro conjI ballI)
  show eq: "map r_index (process_entries E include_nonjson 1 entries) =
     filter (included_at E include_nonjson entries) [1..<Suc (length entries)]"
    using process_entries_indices[of E include_nonjson 1 entries]
    by (simp add: included_at_def[abs_def])
  show "sorted_wrt (<) (map r_index (process_entries E include_nonjson 1 entries))"
    unfolding eq by (rule sorted_wrt_filter) (rule sorted_wrt_upt)
next
  fix row assume "row \<in> set (process_entries E include_nonjson 1 entries)"
  from process_entries_rows[OF this]
  show "1 \<le> r_index row" "r_index row \<le> length entries"
    "process_entry E include_nonjson (r_index row) (entries ! (r_index row - 1)) = Inr (Some row)"
    by auto
qed

text \<open>
  Of the three entries API call, HTML page, script, the second is left out: the rows
  have the indices 1 and 3.
\<close>

theorem summary_indices_are_positions_witness:
  "map r_index (process_entries demo_env False 1 three_entries) = [1, 3] \<and>
   filter (included_at demo_env False three_entries) [1..<Suc (length three_entries)] = [1, 3]"
proof -
  have 1: "\<exists>row. process_entry demo_env False 1 api_entry = Inr (Some row) \<and> r_index row = 1"
    by (simp add: ex_eval_defs api_entry_def is_probable_api_def process_entry_def build_row_def
        try_extract_request_json_def)
  have 2: "process_entry demo_env False 2 page_entry = Inr None"
    by (simp add: ex_eval_defs page_entry_def is_probable_api_def process_entry_def)
  have 3: "\<exists>row. process_entry demo_env False 3 asset_entry = Inr (Some row) \<and> r_index row = 3"
    by (simp add: ex_eval_defs asset_entry_def is_probable_api_def process_entry_def build_row_def
        try_extract_request_json_def)
  have e: "map r_index (process_entries demo_env False 1 three_entries) = [1, 3]"
    using 1 2 3 by (auto simp: three_entries_def eval_nat_numeral)
  from summary_indices_are_positions[of demo_env False three_entries] e show ?thesis by simp
qed

subsection \<open>C5: the extension blocklist\<close>

text \<open>
  Claim C5. For every entry whose fields the classifier can read (the first six lines of
  \<open>is_probable_api\<close> raise nothing) and whose URL parses, when the lower-cased extension
  of the URL path is on the blocklist, the classifier returns false, whatever the method,
  the mime type and the response body are. The blocklist is the dot followed by one of
  the twenty-six names of the claim.
\<close>

theorem blocklisted_extension_not_api:
  assumes "api_fields E entry = Inr (url, method, content, mime)"
    and "parsed_path E url = Inr path"
    and "str_lower E (splitext_ext path) \<in> set ext_block"
  shows "is_probable_api E entry = Inr False \<and>
         ext_block = map (\<lambda>x. U ''.'' @ U x)
           [''js'', ''css'', ''png'', ''jpg'', ''jpeg'', ''gif'', ''svg'', ''ico'', ''woff'',
            ''woff2'', ''ttf'', ''otf'', ''map'', ''mp4'', ''webm'', ''mp3'', ''wav'', ''ogg'',
            ''pdf'', ''zip'', ''gz'', ''br'', ''webp'', ''avif'', ''heic'', ''eot'']"
proof
  show "is_probable_api E entry = Inr False"
    using assms by (simp add: is_probable_api_def)
  show "ext_block = map (\<lambda>x. U ''.'' @ U x)
           [''js'', ''css'', ''png'', ''jpg'', ''jpeg'', ''gif'', ''svg'', ''ico'', ''woff'',
            ''woff2'', ''ttf'', ''otf'', ''map'', ''mp4'', ''webm'', ''mp3'', ''wav'', ''ogg'',
            ''pdf'', ''zip'', ''gz'', ''br'', ''webp'', ''avif'', ''heic'', ''eot'']"
    by (simp add: ext_block_def U_def)
qed

text \<open>
  A script \<open>/static/app.js\<close> requested with POST and answered with mime type
  \<open>application/json\<close> and the body \<open>{}\<close> is not an API call.
\<close>

theorem blocklisted_extension_not_api_witness:
  "api_fields demo_env asset_entry =
     Inr (PStr (U ''https://example.com/static/app.js''), U ''POST'',
          [(PStr (U ''mimeType''), PStr (U ''application/json'')), (PStr (U ''text''), PStr (U ''{}''))],
          U ''application/json'') \<and>
   str_lower demo_env (splitext_ext (U ''/static/app.js'')) = U ''.js'' \<and>
   is_probable_api demo_env asset_entry = Inr False"
proof -
  have 1: "api_fields demo_env asset_entry =
     Inr (PStr (U ''https://example.com/static/app.js''), U ''POST'',
          [(PStr (U ''mimeType''), PStr (U ''application/json'')), (PStr (U ''text''), PStr (U ''{}''))],
          U ''application/json'')"
    by (simp add: ex_eval_defs asset_entry_def)
  have 2: "parsed_path demo_env (PStr (U ''https://example.com/static/app.js'')) = Inr (U ''/static/app.js'')"
    by (simp add: ex_eval_defs)
  have e: "str_lower demo_env (splitext_ext (U ''/static/app.js'')) = U ''.js''"
    by (simp add: ex_eval_defs)
  have 3: "str_lower demo_env (splitext_ext (U ''/static/app.js'')) \<in> set ext_block"
    unfolding e by (simp add: ext_block_def)
  from blocklisted_extension_not_api[OF 1 2 3] 1 e show ?thesis by blast
qed

subsection \<open>C6: the aggregate records\<close>

text \<open>
  Claim C6. For every input and separator, the output has one record for each distinct
  non-empty URL (a URL is read trimmed), in the order of first occurrence; the statuses
  of a record are the distinct non-empty statuses seen with its URL, sorted by length and
  then lexicographically, its files the distinct non-empty files seen with it, sorted
  lexicographically, and each group is joined with the separator.
\<close>

theorem aggregate_first_seen_sorted_joined:
  "map out_url (aggregate sep rows) = first_seen (filter (\<lambda>u. u \<noteq> []) (map row_url rows)) \<and>
   (\<forall>a \<in> set (aggregate sep rows).
      \<exists>ss fs. out_statuses a = join sep ss \<and> sorted_wrt len_lex_le ss \<and> distinct ss \<and>
              set ss = statuses_of (out_url a) rows \<and>
              out_response_files a = join sep fs \<and> sorted fs \<and> distinct fs \<and>
              set fs = files_of (out_url a) rows)"
proof (intro conjI ballI)
  show "map out_url (aggregate sep rows) = first_seen (filter (\<lambda>u. u \<noteq> []) (map row_url rows))"
    by (rule aggregate_urls)
next
  fix a assume "a \<in> set (aggregate sep rows)"
  then obtain d where m: "map_of (collect rows) (out_url a) = Some d"
    and a: "a = emit sep (out_url a, d)"
    using aggregate_record by blast
  note cd = collect_data[OF m]
  let ?ss = "sort_key (\<lambda>s. (length s, s)) (statuses d)"
  let ?fs = "sort_key (\<lambda>s. s) (files d)"
  have "out_statuses a = join sep ?ss" "out_response_files a = join sep ?fs"
    by (subst a, simp add: emit_def)+
  moreover have "sorted_wrt len_lex_le ?ss"
    by (rule sorted_len_lex) (rule sorted_sort_key)
  moreover have "sorted ?fs" using sorted_sort_key[of "\<lambda>s. s" "files d"] by simp
  moreover have "distinct ?ss" "distinct ?fs" "set ?ss = statuses_of (out_url a) rows"
    "set ?fs = files_of (out_url a) rows"
    using cd by simp_all
  ultimately show "\<exists>ss fs. out_statuses a = join sep ss \<and> sorted_wrt len_lex_le ss \<and> distinct ss \<and>
              set ss = statuses_of (out_url a) rows \<and>
              out_response_files a = join sep fs \<and> sorted fs \<and> distinct fs \<and>
              set fs = files_of (out_url a) rows"
    by blast
qed

text \<open>
  The example of the specification, with the default separator: the rows
  \<open>(A, 200, f1)\<close>, \<open>(A, 200, f2)\<close>, \<open>(A, 404, "")\<close> give \<open>200|404\<close> and \<open>f1|f2\<close> for \<open>A\<close>.
\<close>

theorem aggregate_first_seen_sorted_joined_witness:
  "aggregate default_sep spec_rows =
     [\<lparr> out_url = U ''A'', out_statuses = U ''200|404'', out_response_files = U ''f1|f2'' \<rparr>] \<and>
   map out_url (aggregate default_sep spec_rows) = [U ''A'']"
proof -
  have e: "aggregate default_sep spec_rows =
     [\<lparr> out_url = U ''A'', out_statuses = U ''200|404'', out_response_files = U ''f1|f2'' \<rparr>]"
    by (simp add: agg_eval_defs spec_rows_def)
  have f: "first_seen (filter (\<lambda>u. u \<noteq> []) (map row_url spec_rows)) = [U ''A'']"
    by (simp add: agg_eval_defs spec_rows_def)
  from aggregate_first_seen_sorted_joined[of default_sep spec_rows] e f show ?thesis by simp
qed

subsection \<open>C7: what a row contributes\<close>

text \<open>
  Claim C7, as amended. The claim has the status of every row with a URL collected, and
  only the file guarded by a test for emptiness; the code guards both (\<open>if status:\<close>,
  \<open>if resp_file:\<close>). What holds: for every row with a non-empty (trimmed) URL, the URL has
  an entry, the row's trimmed status is in the status set of that URL if and only if it
  is not empty, and the row's trimmed file path is in the file set of that URL if and only
  if it is not empty.
\<close>

theorem row_values_collected_when_non_empty:
  assumes "r \<in> set rows" and "row_url r \<noteq> []"
  shows "\<exists>d. map_of (collect rows) (row_url r) = Some d \<and>
            (row_status r \<in> set (statuses d) \<longleftrightarrow> row_status r \<noteq> []) \<and>
            (row_file r \<in> set (files d) \<longleftrightarrow> row_file r \<noteq> [])"
proof -
  have "row_url r \<in> set (map fst (collect rows))"
    unfolding collect_keys using assms by auto
  then obtain d where m: "map_of (collect rows) (row_url r) = Some d"
    by (metis map_of_eq_None_iff not_Some_eq set_map)
  note cd = collect_data[OF m]
  have "row_status r \<in> statuses_of (row_url r) rows \<longleftrightarrow> row_status r \<noteq> []"
    using assms(1) by (auto simp: statuses_of_def)
  moreover have "row_file r \<in> files_of (row_url r) rows \<longleftrightarrow> row_file r \<noteq> []"
    using assms(1) by (auto simp: files_of_def)
  ultimately show ?thesis using m cd by simp
qed

text \<open>The theorem at the first row of the example.\<close>

theorem row_values_collected_when_non_empty_witness:
  "csv ''A'' ''200'' ''f1'' \<in> set spec_rows \<and> row_url (csv ''A'' ''200'' ''f1'') = U ''A'' \<and>
   (\<exists>d. map_of (collect spec_rows) (U ''A'') = Some d \<and> U ''200'' \<in> set (statuses d) \<and>
        U ''f1'' \<in> set (files d))"
proof -
  have 1: "csv ''A'' ''200'' ''f1'' \<in> set spec_rows" by (simp add: spec_rows_def)
  have u: "row_url (csv ''A'' ''200'' ''f1'') = U ''A''" by (simp add: agg_eval_defs)
  have s: "row_status (csv ''A'' ''200'' ''f1'') = U ''200''" by (simp add: agg_eval_defs)
  have f: "row_file (csv ''A'' ''200'' ''f1'') = U ''f1''" by (simp add: agg_eval_defs)
  have 2: "row_url (csv ''A'' ''200'' ''f1'') \<noteq> []" unfolding u by (simp add: U_def)
  have ne: "U ''200'' \<noteq> []" "U ''f1'' \<noteq> []" by (simp_all add: U_def)
  from row_values_collected_when_non_empty[OF 1 2] 1 u ne show ?thesis
    unfolding u s f by blast
qed

text \<open>
  Claim C7 as stated fails at a row with the URL \<open>A\<close> and an empty status: the status
  set of \<open>A\<close> stays empty, and with a second row of status \<open>200\<close> the statuses written
  are \<open>200\<close>, with no empty member joined in.
\<close>

theorem empty_status_not_collected_counterexample:
  "row_url (csv ''A'' '''' '''') = U ''A'' \<and>
   row_status (csv ''A'' '''' '''') = [] \<and>
   collect [csv ''A'' '''' ''''] = [(U ''A'', \<lparr>statuses = [], files = []\<rparr>)] \<and>
   aggregate default_sep [csv ''A'' '''' '''', csv ''A'' ''200'' ''''] =
     [\<lparr> out_url = U ''A'', out_statuses = U ''200'', out_response_files = [] \<rparr>]"
  by (simp add: agg_eval_defs)

subsection \<open>C8: form parameters\<close>

text \<open>
  Claim C8, as amended. The claim promises success for every form-encoded post data that
  has a parameter list; the code first returns failure when the body text is absent or
  empty, and tries the JSON parse first when the mime type also contains \<open>json\<close>. What holds:
  for post data whose lower-cased mime type contains \<open>x-www-form-urlencoded\<close>, whose body
  text is true (present and not empty), for which the JSON branch does not succeed, and
  whose \<open>params\<close> is a list of objects with hashable names, the recovery succeeds with a
  dictionary that binds every string name to the value of the last parameter carrying it,
  has no key that is not the name of a parameter with a true name, and is empty for the
  empty list.
\<close>

theorem form_recovery_mapping:
  assumes "request_post entry = Inr (PDict pd)"
    and "py_lower E (py_or (dict_get pd ''mimeType'') (PStr [])) = Inr mime"
    and "str_in (U ''x-www-form-urlencoded'') mime"
    and "truthy (dict_get pd ''text'')"
    and "str_in (U ''json'') mime \<longrightarrow> try_parse_json E (dict_get pd ''text'') = Inr (PNone, False)"
    and "dict_get pd ''params'' = PList ps"
    and "\<forall>p \<in> set ps. param_ok p"
  shows "\<exists>d. try_extract_request_json E entry = Inr (PDict d, True) \<and>
             (\<forall>n. map_of d (PStr n) = map_of (rev (named_pairs ps)) (PStr n)) \<and>
             fst ` set d \<subseteq> fst ` set (named_pairs ps) \<and>
             (ps = [] \<longrightarrow> d = [])"
proof -
  from assms(7) obtain d where d: "form_params [] ps = Inr d"
    using form_params_total by blast
  have r: "try_extract_request_json E entry = Inr (PDict d, True)"
    using request_form_branch[OF assms(1,2,4,3) _ assms(6) d] assms(5) by blast
  have l: "map_of d (PStr n) = map_of (rev (named_pairs ps)) (PStr n)" for n
    using form_params_lookup[OF d, of n] by (simp split: option.splits)
  have k: "fst ` set d \<subseteq> fst ` set (named_pairs ps)"
    using form_params_keys[OF d] by simp
  have e: "ps = [] \<longrightarrow> d = []" using d by auto
  from r l k e show ?thesis by blast
qed

text \<open>The theorem at a form with body text \<open>a=1&b=2&a=3\<close> and three parameters.\<close>

theorem form_recovery_mapping_witness:
  "request_post (post_entry form_post) = Inr (PDict form_post) \<and>
   str_in (U ''x-www-form-urlencoded'') (U ''application/x-www-form-urlencoded'') \<and>
   (\<exists>d. try_extract_request_json demo_env (post_entry form_post) = Inr (PDict d, True) \<and>
        map_of d (PStr (U ''a'')) = Some (PStr (U ''3'')) \<and>
        map_of d (PStr (U ''b'')) = Some (PStr (U ''2'')))"
proof -
  have 1: "request_post (post_entry form_post) = Inr (PDict form_post)"
    by (simp add: eval_defs form_post_def)
  have 2: "py_lower demo_env (py_or (dict_get form_post ''mimeType'') (PStr []))
            = Inr (U ''application/x-www-form-urlencoded'')"
    by (simp add: eval_defs form_post_def)
  have 3: "str_in (U ''x-www-form-urlencoded'') (U ''application/x-www-form-urlencoded'')"
    by (simp add: eval_defs)
  have 4: "truthy (dict_get form_post ''text'')"
    by (simp add: eval_defs form_post_def)
  have 5: "str_in (U ''json'') (U ''application/x-www-form-urlencoded'') \<longrightarrow>
           try_parse_json demo_env (dict_get form_post ''text'') = Inr (PNone, False)"
    by (simp add: eval_defs)
  have 6: "dict_get form_post ''params'' = PList [param ''a'' ''1'', param ''b'' ''2'', param ''a'' ''3'']"
    by (simp add: eval_defs form_post_def)
  have 7: "\<forall>p \<in> set [param ''a'' ''1'', param ''b'' ''2'', param ''a'' ''3'']. param_ok p"
    by (simp add: eval_defs)
  from form_recovery_mapping[OF 1 2 3 4 5 6 7] obtain d where
    d: "try_extract_request_json demo_env (post_entry form_post) = Inr (PDict d, True)"
    and m: "\<And>n. map_of d (PStr n) = map_of (rev (named_pairs [param ''a'' ''1'', param ''b'' ''2'', param ''a'' ''3''])) (PStr n)"
    by blast
  have "map_of d (PStr (U ''a'')) = Some (PStr (U ''3''))"
    unfolding m by (simp add: eval_defs)
  moreover have "map_of d (PStr (U ''b'')) = Some (PStr (U ''2''))"
    unfolding m by (simp add: eval_defs)
  ultimately show ?thesis using 1 3 d by blast
qed

text \<open>
  Claim C8 as stated fails on the specification's own example: a form-encoded post data
  with the parameters \<open>a = 1\<close> and \<open>b = 2\<close> and no body text is not recovered.
\<close>

theorem form_without_text_counterexample:
  "request_post (post_entry form_post_no_text) = Inr (PDict form_post_no_text) \<and>
   str_in (U ''x-www-form-urlencoded'') (U ''application/x-www-form-urlencoded'') \<and>
   dict_get form_post_no_text ''params'' = PList [param ''a'' ''1'', param ''b'' ''2''] \<and>
   try_extract_request_json demo_env (post_entry form_post_no_text) = Inr (PNone, False)"
  by (simp add: eval_defs form_post_no_text_def try_extract_request_json_def)

subsection \<open>C9: the exit codes\<close>

text \<open>
  Claim C9. When the output directories can be made, the extractor returns 2 when the
  input path names no file, 2 when the text of the file does not parse as JSON, and 0,
  without writing a table, when the capture has no entries (the value of
  \<open>log.entries\<close> is absent, null or empty).
\<close>

theorem extractor_exit_codes:
  assumes "makedirs_ok E"
  shows "main E include_nonjson None = Inr (2, None) \<and>
         (json_loads E txt = None \<longrightarrow> main E include_nonjson (Some txt) = Inr (2, None)) \<and>
         (json_loads E txt = Some har \<and> har_entries har = Inr entries \<and> \<not> truthy entries \<longrightarrow>
            main E include_nonjson (Some txt) = Inr (0, None))"
  using assms by (simp add: main_def)


text \<open>A missing file, the text \<open>not json\<close>, and the capture \<open>{}\<close>.\<close>

theorem extractor_exit_codes_witness:
  "makedirs_ok demo_env \<and>
   main demo_env False None = Inr (2, None) \<and>
   main demo_env False (Some (U ''not json'')) = Inr (2, None) \<and>
   main demo_env False (Some (U ''{}'')) = Inr (0, None)"
proof -
  have m: "makedirs_ok demo_env" by (simp add: demo_env_def)
  have 1: "json_loads demo_env (U ''not json'') = None" by (simp add: eval_defs)
  have 2: "json_loads demo_env (U ''{}'') = Some (PDict []) \<and>
           har_entries (PDict []) = Inr (PList []) \<and> \<not> truthy (PList [])"
    by (simp add: eval_defs har_entries_def)
  from extractor_exit_codes[OF m, of False "U ''not json''"]
       extractor_exit_codes[OF m, of False "U ''{}''" "PDict []" "PList []"] m 1 2
  show ?thesis by simp
qed

subsection \<open>C10: a repeated parameter name\<close>

text \<open>
  Claim C10. When the parameter list of a recovered form holds a parameter named \<open>n\<close>
  (a non-empty string) and no later parameter has that name, whatever comes before it, the
  returned dictionary has the key \<open>n\<close> exactly once, bound to that parameter's value: of
  several parameters with one name the last one wins.
\<close>

theorem form_duplicate_name_last_wins:
  assumes "request_post entry = Inr (PDict pd)"
    and "py_lower E (py_or (dict_get pd ''mimeType'') (PStr [])) = Inr mime"
    and "str_in (U ''x-www-form-urlencoded'') mime"
    and "truthy (dict_get pd ''text'')"
    and "str_in (U ''json'') mime \<longrightarrow> try_parse_json E (dict_get pd ''text'') = Inr (PNone, False)"
    and "dict_get pd ''params'' = PList (ps1 @ PDict q # ps2)"
    and "\<forall>p \<in> set (ps1 @ PDict q # ps2). param_ok p"
    and "dict_get q ''name'' = PStr n" and "n \<noteq> []"
    and "\<forall>p \<in> set ps2. param_name p \<noteq> PStr n"
  shows "\<exists>d. try_extract_request_json E entry = Inr (PDict d, True) \<and>
             length (filter (\<lambda>kv. fst kv = PStr n) d) = 1 \<and>
             map_of d (PStr n) = Some (dict_get q ''value'')"
proof -
  let ?ps = "ps1 @ PDict q # ps2"
  from assms(7) obtain d where d: "form_params [] ?ps = Inr d"
    using form_params_total by blast
  have r: "try_extract_request_json E entry = Inr (PDict d, True)"
    using request_form_branch[OF assms(1,2,4,3) _ assms(6) d] assms(5) by blast
  have pn: "param_name (PDict q) = PStr n" using assms(8) by (simp add: param_name_def)
  have c: "length (filter (\<lambda>kv. fst kv = PStr n) d) = 1"
    using form_params_count[OF d, of n] pn assms(9) by auto
  have "map_of (rev (named_pairs ?ps)) (PStr n) = Some (dict_get q ''value'')"
    using named_pairs_no_key[OF assms(10)] pn assms(9)
    by (simp add: named_pairs_append named_pairs_Cons param_value_def map_add_def)
  then have l: "map_of d (PStr n) = Some (dict_get q ''value'')"
    using form_params_lookup[OF d, of n] by simp
  from r c l show ?thesis by blast
qed

text \<open>The parameters \<open>a = 1\<close>, \<open>b = 2\<close>, \<open>a = 3\<close> give \<open>{a: 3, b: 2}\<close>.\<close>

theorem form_duplicate_name_last_wins_witness:
  "try_extract_request_json demo_env (post_entry form_post) =
     Inr (PDict [(PStr (U ''a''), PStr (U ''3'')), (PStr (U ''b''), PStr (U ''2''))], True) \<and>
   (\<exists>d. try_extract_request_json demo_env (post_entry form_post) = Inr (PDict d, True) \<and>
        length (filter (\<lambda>kv. fst kv = PStr (U ''a'')) d) = 1 \<and>
        map_of d (PStr (U ''a'')) = Some (PStr (U ''3'')))"
proof -
  have 1: "request_post (post_entry form_post) = Inr (PDict form_post)"
    by (simp add: eval_defs form_post_def)
  have 2: "py_lower demo_env (py_or (dict_get form_post ''mimeType'') (PStr []))
            = Inr (U ''application/x-www-form-urlencoded'')"
    by (simp add: eval_defs form_post_def)
  have 3: "str_in (U ''x-www-form-urlencoded'') (U ''application/x-www-form-urlencoded'')"
    by (simp add: eval_defs)
  have 4: "truthy (dict_get form_post ''text'')"
    by (simp add: eval_defs form_post_def)
  have 5: "str_in (U ''json'') (U ''application/x-www-form-urlencoded'') \<longrightarrow>
           try_parse_json demo_env (dict_get form_post ''text'') = Inr (PNone, False)"
    by (simp add: eval_defs)
  have 6: "dict_get form_post ''params'' =
           PList ([param ''a'' ''1'', param ''b'' ''2''] @
                    PDict [(PStr (U ''name''), PStr (U ''a'')), (PStr (U ''value''), PStr (U ''3''))] # [])"
    by (simp add: eval_defs form_post_def)
  have 7: "\<forall>p \<in> set ([param ''a'' ''1'', param ''b'' ''2''] @
                    PDict [(PStr (U ''name''), PStr (U ''a'')), (PStr (U ''value''), PStr (U ''3''))] # []). param_ok p"
    by (simp add: eval_defs)
  have 8: "dict_get [(PStr (U ''name''), PStr (U ''a'')), (PStr (U ''value''), PStr (U ''3''))] ''name'' = PStr (U ''a'')"
    by (simp add: eval_defs)
  have 9: "U ''a'' \<noteq> []" by (simp add: U_def)
  have 10: "\<forall>p \<in> set []. param_name p \<noteq> PStr (U ''a'')" by simp
  have v: "dict_get [(PStr (U ''name''), PStr (U ''a'')), (PStr (U ''value''), PStr (U ''3''))] ''value'' = PStr (U ''3'')"
    by (simp add: eval_defs)
  have e: "try_extract_request_json demo_env (post_entry form_post) =
     Inr (PDict [(PStr (U ''a''), PStr (U ''3'')), (PStr (U ''b''), PStr (U ''2''))], True)"
    by (simp add: eval_defs form_post_def try_extract_request_json_def)
  from form_duplicate_name_last_wins[OF 1 2 3 4 5 6 7 8 9 10] e show ?thesis
    unfolding v by blast
qed

end
